theory Spec2Isabelle
  imports Complex_Main "HOL-Library.Word"
begin

unbundle bit_operations_syntax

section \<open>Color channel unpacking (src/utils/color.ts)\<close>

text \<open>
  The bitwise operators of JavaScript work on 32-bit two's complement integers: both
  operands pass through ToInt32 (reduction modulo \<open>2 ^ 32\<close>, read as signed), \<open>>>\<close> is
  the sign-propagating shift (its count taken modulo 32) and the result is again a
  signed 32-bit integer. The argument \<open>color\<close> is an integer; the quotient by \<open>0xff\<close>
  is kept as an exact rational.
\<close>

definition js_shr :: "int \<Rightarrow> nat \<Rightarrow> int" where
  "js_shr a n = sint (signed_drop_bit (n mod 32) (word_of_int a :: 32 word))"

definition js_bitand :: "int \<Rightarrow> int \<Rightarrow> int" where
  "js_bitand a b = sint ((word_of_int a :: 32 word) AND (word_of_int b :: 32 word))"

definition colorIntToFloats :: "int \<Rightarrow> rat \<times> rat \<times> rat \<times> rat" where
  "colorIntToFloats color =
     (of_int (js_bitand (js_shr color 24) 0xff) / 0xff,
      of_int (js_bitand (js_shr color 16) 0xff) / 0xff,
      of_int (js_bitand (js_shr color 8) 0xff) / 0xff,
      of_int (js_bitand (js_shr color 0) 0xff) / 0xff)"


section \<open>JavaScript numbers\<close>

text \<open>
  A JavaScript \<open>number\<close> is modelled as a finite number with an exact rational value,
  the negative zero, one of the two infinities, or NaN. \<open>Fin 0\<close> is the positive zero
  and \<open>NegZero\<close> the negative one; every other finite number is \<open>Fin a\<close> with
  \<open>a \<noteq> 0\<close>. The rounding error of binary floating point on finite values, overflow to
  infinity and underflow to zero are not modelled. The operators below follow IEEE 754
  and ECMAScript on the zeros, the infinities and NaN; like the JavaScript operators,
  none of them ever throws.
\<close>

datatype number = Fin rat | NegZero | PInf | NInf | NaN

fun is_zero :: "number \<Rightarrow> bool" where
  "is_zero (Fin a) \<longleftrightarrow> a = 0"
| "is_zero NegZero \<longleftrightarrow> True"
| "is_zero r \<longleftrightarrow> False"

fun is_inf :: "number \<Rightarrow> bool" where
  "is_inf PInf \<longleftrightarrow> True"
| "is_inf NInf \<longleftrightarrow> True"
| "is_inf r \<longleftrightarrow> False"

text \<open>\<open>Number.isFinite\<close>: the finite numbers are the rationals and the negative zero.\<close>

fun is_finite :: "number \<Rightarrow> bool" where
  "is_finite (Fin a) \<longleftrightarrow> True"
| "is_finite NegZero \<longleftrightarrow> True"
| "is_finite r \<longleftrightarrow> False"

text \<open>The sign bit of a number other than NaN.\<close>

fun sign_neg :: "number \<Rightarrow> bool" where
  "sign_neg (Fin a) \<longleftrightarrow> a < 0"
| "sign_neg NegZero \<longleftrightarrow> True"
| "sign_neg NInf \<longleftrightarrow> True"
| "sign_neg r \<longleftrightarrow> False"

text \<open>The real value of a finite number; both zeros have the value 0.\<close>

fun fin_val :: "number \<Rightarrow> rat" where
  "fin_val (Fin a) = a"
| "fin_val r = 0"

text \<open>The zero and the infinity with a given sign bit.\<close>

definition zero_of :: "bool \<Rightarrow> number" where
  "zero_of neg = (if neg then NegZero else Fin 0)"

definition inf_of :: "bool \<Rightarrow> number" where
  "inf_of neg = (if neg then NInf else PInf)"

text \<open>Unary minus flips the sign bit.\<close>

fun js_neg :: "number \<Rightarrow> number" where
  "js_neg (Fin a) = (if a = 0 then NegZero else Fin (- a))"
| "js_neg NegZero = Fin 0"
| "js_neg PInf = NInf"
| "js_neg NInf = PInf"
| "js_neg NaN = NaN"

text \<open>
  Addition: infinities of opposite sign give NaN; the sum of two negative zeros is the
  negative zero; every other sum of finite numbers is the exact sum, a zero sum being
  the positive zero.
\<close>

fun js_add :: "number \<Rightarrow> number \<Rightarrow> number" where
  "js_add (Fin a) (Fin b) = Fin (a + b)"
| "js_add NaN _ = NaN"
| "js_add _ NaN = NaN"
| "js_add PInf NInf = NaN"
| "js_add NInf PInf = NaN"
| "js_add PInf _ = PInf"
| "js_add _ PInf = PInf"
| "js_add NInf _ = NInf"
| "js_add _ NInf = NInf"
| "js_add NegZero y = y"
| "js_add x NegZero = x"

text \<open>Subtraction is the addition of the negated operand.\<close>

definition js_sub :: "number \<Rightarrow> number \<Rightarrow> number" where
  "js_sub a b = js_add a (js_neg b)"

text \<open>
  Multiplication: the sign bit of the product is the exclusive or of the sign bits of
  the factors, also when the product is a zero or an infinity; an infinity times a zero
  is NaN.
\<close>

definition js_mul :: "number \<Rightarrow> number \<Rightarrow> number" where
  "js_mul x y =
     (if x = NaN \<or> y = NaN then NaN
      else if is_inf x \<or> is_inf y then
        (if is_zero x \<or> is_zero y then NaN else inf_of (sign_neg x \<noteq> sign_neg y))
      else if is_zero x \<or> is_zero y then zero_of (sign_neg x \<noteq> sign_neg y)
      else Fin (fin_val x * fin_val y))"

text \<open>
  Division: the sign bit of the quotient is the exclusive or of the sign bits of the
  operands. An infinity by an infinity and a zero by a zero are NaN; a nonzero number by
  a zero is an infinity, so \<open>4 / 0\<close> is \<open>Infinity\<close> and \<open>4 / -0\<close> is \<open>-Infinity\<close>.
  Division never throws.
\<close>

definition js_div :: "number \<Rightarrow> number \<Rightarrow> number" where
  "js_div x y =
     (if x = NaN \<or> y = NaN then NaN
      else if is_inf x then (if is_inf y then NaN else inf_of (sign_neg x \<noteq> sign_neg y))
      else if is_inf y then zero_of (sign_neg x \<noteq> sign_neg y)
      else if is_zero y then
        (if is_zero x then NaN else inf_of (sign_neg x \<noteq> sign_neg y))
      else if is_zero x then zero_of (sign_neg x \<noteq> sign_neg y)
      else Fin (fin_val x / fin_val y))"

text \<open>
  The comparisons \<open><\<close>, \<open>>\<close> and \<open>===\<close> on numbers: any comparison with NaN is false,
  and the two zeros are equal.
\<close>

definition js_lt :: "number \<Rightarrow> number \<Rightarrow> bool" where
  "js_lt x y \<longleftrightarrow>
     x \<noteq> NaN \<and> y \<noteq> NaN \<and> x \<noteq> PInf \<and> y \<noteq> NInf
     \<and> (x = NInf \<or> y = PInf \<or> fin_val x < fin_val y)"

definition js_gt :: "number \<Rightarrow> number \<Rightarrow> bool" where
  "js_gt a b = js_lt b a"

definition js_eq :: "number \<Rightarrow> number \<Rightarrow> bool" where
  "js_eq x y \<longleftrightarrow> x \<noteq> NaN \<and> y \<noteq> NaN \<and> (x = y \<or> (is_zero x \<and> is_zero y))"

text \<open>
  \<open>Math.max\<close> and \<open>Math.min\<close>: NaN if an argument is NaN; the negative zero counts as
  smaller than the positive one.
\<close>

definition js_max :: "number \<Rightarrow> number \<Rightarrow> number" where
  "js_max x y =
     (if x = NaN \<or> y = NaN then NaN
      else if js_lt x y then y
      else if js_lt y x then x
      else if x = NegZero then y else x)"

definition js_min :: "number \<Rightarrow> number \<Rightarrow> number" where
  "js_min x y =
     (if x = NaN \<or> y = NaN then NaN
      else if js_lt x y then x
      else if js_lt y x then y
      else if x = NegZero then x else y)"

text \<open>\<open>Math.abs\<close> clears the sign bit.\<close>

fun js_abs :: "number \<Rightarrow> number" where
  "js_abs (Fin a) = Fin \<bar>a\<bar>"
| "js_abs NegZero = Fin 0"
| "js_abs PInf = PInf"
| "js_abs NInf = PInf"
| "js_abs NaN = NaN"

section \<open>Scalar kinds and the coercion calculus\<close>

text \<open>
  The XY classes import the scalar modules \<open>U16\<close> and \<open>I4\<close> and call their functions
  \<open>U16(n)\<close>, \<open>U16.ceil\<close>, \<open>U16.floor\<close>, \<open>U16.round\<close>, \<open>U16.trunc\<close>, \<open>I4(n)\<close>,
  \<open>I4.ceil\<close>, \<open>I4.clamp\<close>, \<open>I4.floor\<close> and \<open>I4.round\<close>. The modules themselves are not
  among the source files, so every definition of this section is written from
  sections 3, 4.1 and 7 of the specification.
\<close>

text \<open>Modelled from the spec: the shape of a scalar kind (the module defining the kinds is missing).\<close>

datatype shape = Integral | Fractional

text \<open>
  Modelled from the spec: the descriptor of a scalar kind, its shape and its range
  \<open>[min, max]\<close> (the kind descriptors are missing).
\<close>

record kind =
  kshape :: shape
  kmin :: rat
  kmax :: rat

text \<open>Modelled from the spec: the six coercion policies (the coercion functions are missing).\<close>

datatype policy = Cast | Clamp | Ceil | Floor | Round | Trunc

text \<open>
  Modelled from the spec: the error taxonomy of section 7 (the errors thrown by the
  missing scalar functions).
\<close>

datatype error = RangeViolation | NonIntegralViolation | DivisionByZero | MalformedInput

text \<open>Modelled from the spec: a whole number, as the missing integrality check of Cast tests it.\<close>

definition is_whole :: "rat \<Rightarrow> bool" where
  "is_whole a \<longleftrightarrow> of_int \<lfloor>a\<rfloor> = a"

text \<open>
  Modelled from the spec: well-formedness of the missing kind descriptors. The range is
  not empty and, for an Integral kind, its bounds are whole numbers.
\<close>

definition valid_kind :: "kind \<Rightarrow> bool" where
  "valid_kind K \<longleftrightarrow>
     kmin K \<le> kmax K \<and> (kshape K = Fractional \<or> (is_whole (kmin K) \<and> is_whole (kmax K)))"

text \<open>
  Modelled from the spec: a scalar value of a kind (section 3), the values the missing
  scalar functions are meant to return: a number within the range that is whole if the
  kind is Integral. The negative zero is the whole number 0 with a sign bit.
\<close>

fun is_scalar :: "kind \<Rightarrow> number \<Rightarrow> bool" where
  "is_scalar K (Fin a) \<longleftrightarrow>
     kmin K \<le> a \<and> a \<le> kmax K \<and> (kshape K = Fractional \<or> is_whole a)"
| "is_scalar K NegZero \<longleftrightarrow> kmin K \<le> 0 \<and> 0 \<le> kmax K"
| "is_scalar K PInf \<longleftrightarrow> False"
| "is_scalar K NInf \<longleftrightarrow> False"
| "is_scalar K NaN \<longleftrightarrow> False"

text \<open>
  Modelled from the spec: the missing Cast coercion. The number must already lie within
  the range and, for an Integral kind, be whole; no rounding is performed and the
  number is returned as it is. The range is checked first; NaN and the infinities are
  not within any range.
\<close>

fun cast :: "kind \<Rightarrow> number \<Rightarrow> error + number" where
  "cast K (Fin a) =
     (if a < kmin K \<or> kmax K < a then Inl RangeViolation
      else if kshape K = Integral \<and> \<not> is_whole a then Inl NonIntegralViolation
      else Inr (Fin a))"
| "cast K NegZero =
     (if 0 < kmin K \<or> kmax K < 0 then Inl RangeViolation else Inr NegZero)"
| "cast K PInf = Inl RangeViolation"
| "cast K NInf = Inl RangeViolation"
| "cast K NaN = Inl RangeViolation"

text \<open>
  Modelled from the spec: the saturation step of the missing coercions, "to min if
  r < min, to max if r > max; otherwise pass through unchanged". Both comparisons are
  false on NaN, which passes through.
\<close>

definition saturate :: "kind \<Rightarrow> number \<Rightarrow> number" where
  "saturate K r =
     (if js_lt r (Fin (kmin K)) then Fin (kmin K)
      else if js_gt r (Fin (kmax K)) then Fin (kmax K)
      else r)"

text \<open>
  Modelled from the spec: the mathematical ceiling used by the missing Ceil coercion. A
  ceiling that is 0 is the positive zero; the negative zero and the special values are
  left as they are, as \<open>Math.ceil\<close> leaves them.
\<close>

fun num_ceil :: "number \<Rightarrow> number" where
  "num_ceil (Fin a) = Fin (of_int \<lceil>a\<rceil>)"
| "num_ceil r = r"

text \<open>Modelled from the spec: the mathematical floor used by the missing Floor coercion.\<close>

fun num_floor :: "number \<Rightarrow> number" where
  "num_floor (Fin a) = Fin (of_int \<lfloor>a\<rfloor>)"
| "num_floor r = r"

text \<open>
  Modelled from the spec: truncation toward zero, used by the missing Trunc coercion and
  by Clamp on an Integral kind.
\<close>

fun num_trunc :: "number \<Rightarrow> number" where
  "num_trunc (Fin a) = Fin (if 0 \<le> a then of_int \<lfloor>a\<rfloor> else of_int \<lceil>a\<rceil>)"
| "num_trunc r = r"

text \<open>
  Modelled from the spec: rounding half away from zero, used by the missing Round
  coercion.
\<close>

fun num_round :: "number \<Rightarrow> number" where
  "num_round (Fin a) =
     Fin (if 0 \<le> a then of_int \<lfloor>a + 1 / 2\<rfloor> else - of_int \<lfloor>- a + 1 / 2\<rfloor>)"
| "num_round r = r"

text \<open>
  Modelled from the spec: the post-rounding check of section 7 ("the post-rounding value
  is not a whole number") in the missing Ceil, Floor, Round and Trunc coercions. NaN and
  the infinities are not whole numbers.
\<close>

fun whole_number :: "number \<Rightarrow> bool" where
  "whole_number (Fin a) \<longleftrightarrow> is_whole a"
| "whole_number NegZero \<longleftrightarrow> True"
| "whole_number r \<longleftrightarrow> False"

text \<open>
  Modelled from the spec: the rounding step of each missing coercion. Cast performs
  none; Clamp truncates toward zero for an Integral kind and leaves the number alone for
  a Fractional one; Ceil, Floor, Round and Trunc apply to Integral kinds.
\<close>

fun rounding :: "shape \<Rightarrow> policy \<Rightarrow> number \<Rightarrow> number" where
  "rounding s Cast r = r"
| "rounding s Clamp r = (if s = Integral then num_trunc r else r)"
| "rounding s Ceil r = num_ceil r"
| "rounding s Floor r = num_floor r"
| "rounding s Round r = num_round r"
| "rounding s Trunc r = num_trunc r"

text \<open>
  Modelled from the spec: the missing coercion of a raw number under a policy, after the
  table of section 4.1. Cast checks the number as it is. Clamp never fails: it
  saturates, and what neither comparison of the saturation catches (NaN) passes through
  unchanged; for an Integral kind it truncates toward zero as well. Ceil, Floor, Round
  and Trunc round first and saturate second ("Order is fixed"); on a non-finite input
  the rounded number is not whole and the coercion fails (section 4.2, "Round-family
  hitting a non-finite input"; section 7, "Non-integral violation").
\<close>

fun coerce :: "kind \<Rightarrow> policy \<Rightarrow> number \<Rightarrow> error + number" where
  "coerce K Cast r = cast K r"
| "coerce K Clamp r = Inr (saturate K (rounding (kshape K) Clamp r))"
| "coerce K p r =
     (if whole_number (rounding (kshape K) p r)
      then Inr (saturate K (rounding (kshape K) p r))
      else Inl NonIntegralViolation)"

text \<open>
  Modelled from the spec: the missing descriptor of the 16-bit unsigned kind, Integral
  with range \<open>[0, 65535]\<close>.
\<close>

definition U16_kind :: kind where
  "U16_kind = \<lparr>kshape = Integral, kmin = 0, kmax = 65535\<rparr>"

text \<open>
  Modelled from the spec: the missing descriptor of the 4-bit signed kind, Integral with
  range \<open>[-8, 7]\<close>.
\<close>

definition I4_kind :: kind where
  "I4_kind = \<lparr>kshape = Integral, kmin = - 8, kmax = 7\<rparr>"

text \<open>Modelled from the spec: the missing function \<open>U16(n)\<close>, the Cast coercion of the kind.\<close>

definition U16 :: "number \<Rightarrow> error + number" where
  "U16 r = coerce U16_kind Cast r"

text \<open>Modelled from the spec: the missing function \<open>U16.ceil\<close>, the Ceil coercion of the kind.\<close>

definition U16_ceil :: "number \<Rightarrow> error + number" where
  "U16_ceil r = coerce U16_kind Ceil r"

text \<open>Modelled from the spec: the missing function \<open>U16.floor\<close>, the Floor coercion of the kind.\<close>

definition U16_floor :: "number \<Rightarrow> error + number" where
  "U16_floor r = coerce U16_kind Floor r"

text \<open>Modelled from the spec: the missing function \<open>U16.round\<close>, the Round coercion of the kind.\<close>

definition U16_round :: "number \<Rightarrow> error + number" where
  "U16_round r = coerce U16_kind Round r"

text \<open>Modelled from the spec: the missing function \<open>U16.trunc\<close>, the Trunc coercion of the kind.\<close>

definition U16_trunc :: "number \<Rightarrow> error + number" where
  "U16_trunc r = coerce U16_kind Trunc r"

text \<open>Modelled from the spec: the missing function \<open>I4(n)\<close>, the Cast coercion of the kind.\<close>

definition I4 :: "number \<Rightarrow> error + number" where
  "I4 r = coerce I4_kind Cast r"

text \<open>Modelled from the spec: the missing function \<open>I4.ceil\<close>, the Ceil coercion of the kind.\<close>

definition I4_ceil :: "number \<Rightarrow> error + number" where
  "I4_ceil r = coerce I4_kind Ceil r"

text \<open>Modelled from the spec: the missing function \<open>I4.clamp\<close>, the Clamp coercion of the kind.\<close>

definition I4_clamp :: "number \<Rightarrow> error + number" where
  "I4_clamp r = coerce I4_kind Clamp r"

text \<open>Modelled from the spec: the missing function \<open>I4.floor\<close>, the Floor coercion of the kind.\<close>

definition I4_floor :: "number \<Rightarrow> error + number" where
  "I4_floor r = coerce I4_kind Floor r"

text \<open>Modelled from the spec: the missing function \<open>I4.round\<close>, the Round coercion of the kind.\<close>

definition I4_round :: "number \<Rightarrow> error + number" where
  "I4_round r = coerce I4_kind Round r"

section \<open>Objects, the heap and the common method bodies\<close>

text \<open>
  An XY object has the two private fields \<open>#x\<close> and \<open>#y\<close>. Objects live in a heap and
  are named by references, so that a method can mutate its receiver and return it; every
  reference names an XY object, and the references from \<open>next_ref\<close> on are not yet
  allocated. A computation takes the heap and gives back either the thrown error or the
  returned value, together with the heap as it is at that moment: an exception does not
  undo the assignments made before it.
\<close>

type_synonym ref = nat

record fields =
  priv_x :: number
  priv_y :: number

record heap =
  objs :: "ref \<Rightarrow> fields"
  next_ref :: ref

type_synonym 'a prog = "heap \<Rightarrow> (error + 'a) \<times> heap"

text \<open>
  Every method with arguments is overloaded: it takes two numbers or one record with the
  fields \<open>x\<close> and \<open>y\<close>, represented by the numbers its two fields hold. The two
  selectors are the expressions \<open>typeof xXY == 'number' ? xXY : xXY.x\<close> and
  \<open>typeof xXY == 'number' ? y! : xXY.y\<close>.
\<close>

datatype args = Nums number number | Rec number number

fun arg_x :: "args \<Rightarrow> number" where
  "arg_x (Nums x y) = x"
| "arg_x (Rec x y) = x"

fun arg_y :: "args \<Rightarrow> number" where
  "arg_y (Nums x y) = y"
| "arg_y (Rec x y) = y"

definition get_x :: "ref \<Rightarrow> heap \<Rightarrow> number" where
  "get_x this h = priv_x (objs h this)"

definition get_y :: "ref \<Rightarrow> heap \<Rightarrow> number" where
  "get_y this h = priv_y (objs h this)"

definition put_x :: "ref \<Rightarrow> number \<Rightarrow> heap \<Rightarrow> heap" where
  "put_x this v h = h\<lparr>objs := (objs h)(this := (objs h this)\<lparr>priv_x := v\<rparr>)\<rparr>"

definition put_y :: "ref \<Rightarrow> number \<Rightarrow> heap \<Rightarrow> heap" where
  "put_y this v h = h\<lparr>objs := (objs h)(this := (objs h this)\<lparr>priv_y := v\<rparr>)\<rparr>"

text \<open>
  The body shared by the mutating methods:
  \<^verbatim>\<open>this.#x = C(ex); this.#y = C(ey); return this\<close>
  where \<open>C\<close> is a scalar coercion and \<open>ex\<close>, \<open>ey\<close> are computed from the current value of
  the field. The statements run in this order: the coercion of \<open>x\<close> may throw before
  anything is assigned, the coercion of \<open>y\<close> may throw after \<open>#x\<close> has been assigned.
\<close>

definition assign_xy ::
  "(number \<Rightarrow> error + number) \<Rightarrow> (number \<Rightarrow> number) \<Rightarrow> (number \<Rightarrow> number) \<Rightarrow> ref \<Rightarrow> ref prog" where
  "assign_xy C ex ey this h =
     (case C (ex (get_x this h)) of
        Inl e \<Rightarrow> (Inl e, h)
      | Inr vx \<Rightarrow>
          (case C (ey (get_y this (put_x this vx h))) of
             Inl e \<Rightarrow> (Inl e, put_x this vx h)
           | Inr vy \<Rightarrow> (Inr this, put_y this vy (put_x this vx h))))"

text \<open>
  The methods with arguments combine each field with the corresponding argument:
  \<^verbatim>\<open>this.#x = C(f(this.#x, argx)); this.#y = C(f(this.#y, argy)); return this\<close>
\<close>

definition update_xy ::
  "(number \<Rightarrow> error + number) \<Rightarrow> (number \<Rightarrow> number \<Rightarrow> number) \<Rightarrow> ref \<Rightarrow> args \<Rightarrow> ref prog" where
  "update_xy C f this a = assign_xy C (\<lambda>v. f v (arg_x a)) (\<lambda>v. f v (arg_y a)) this"

text \<open>Allocation of a new object with the given fields at the next free reference.\<close>

definition alloc :: "number \<Rightarrow> number \<Rightarrow> heap \<Rightarrow> heap" where
  "alloc vx vy h =
     h\<lparr>objs := (objs h)(next_ref h := \<lparr>priv_x = vx, priv_y = vy\<rparr>),
       next_ref := Suc (next_ref h)\<rparr>"

text \<open>
  The constructor body \<^verbatim>\<open>this.#x = C(argx); this.#y = C(argy)\<close> on a newly
  allocated object. When a coercion throws, no reference to the object escapes, so the
  heap is left as it was.
\<close>

definition construct_xy :: "(number \<Rightarrow> error + number) \<Rightarrow> args \<Rightarrow> ref prog" where
  "construct_xy C a h =
     (case C (arg_x a) of
        Inl e \<Rightarrow> (Inl e, h)
      | Inr vx \<Rightarrow>
          (case C (arg_y a) of
             Inl e \<Rightarrow> (Inl e, h)
           | Inr vy \<Rightarrow> (Inr (next_ref h), alloc vx vy h)))"

text \<open>
  The static factories: \<^verbatim>\<open>return new this(C(argx), C(argy))\<close>. Both arguments are
  evaluated, in order, before the constructor runs on the two results.
\<close>

definition factory_xy ::
  "(number \<Rightarrow> error + number) \<Rightarrow> (args \<Rightarrow> ref prog) \<Rightarrow> args \<Rightarrow> ref prog" where
  "factory_xy C ctor a h =
     (case C (arg_x a) of
        Inl e \<Rightarrow> (Inl e, h)
      | Inr vx \<Rightarrow>
          (case C (arg_y a) of
             Inl e \<Rightarrow> (Inl e, h)
           | Inr vy \<Rightarrow> ctor (Nums vx vy) h))"

text \<open>A heap in which nothing has been allocated yet.\<close>

definition empty_heap :: heap where
  "empty_heap = \<lparr>objs = (\<lambda>r. \<lparr>priv_x = Fin 0, priv_y = Fin 0\<rparr>), next_ref = 0\<rparr>"

section \<open>The class U16XY\<close>

definition U16XY_new :: "args \<Rightarrow> ref prog" where
  "U16XY_new a = construct_xy U16 a"

definition U16XY_ceil :: "args \<Rightarrow> ref prog" where
  "U16XY_ceil a = factory_xy U16_ceil U16XY_new a"

definition U16XY_floor :: "args \<Rightarrow> ref prog" where
  "U16XY_floor a = factory_xy U16_floor U16XY_new a"

definition U16XY_round :: "args \<Rightarrow> ref prog" where
  "U16XY_round a = factory_xy U16_round U16XY_new a"

definition U16XY_trunc :: "args \<Rightarrow> ref prog" where
  "U16XY_trunc a = factory_xy U16_trunc U16XY_new a"

definition U16XY_abs :: "ref \<Rightarrow> ref prog" where
  "U16XY_abs this = assign_xy U16 js_abs js_abs this"

definition U16XY_absClamp :: "ref \<Rightarrow> ref prog" where
  "U16XY_absClamp this = assign_xy U16_trunc js_abs js_abs this"

definition U16XY_add :: "ref \<Rightarrow> args \<Rightarrow> ref prog" where
  "U16XY_add this a = update_xy U16 js_add this a"

definition U16XY_addCeil :: "ref \<Rightarrow> args \<Rightarrow> ref prog" where
  "U16XY_addCeil this a = update_xy U16_ceil js_add this a"

definition U16XY_addFloor :: "ref \<Rightarrow> args \<Rightarrow> ref prog" where
  "U16XY_addFloor this a = update_xy U16_floor js_add this a"

definition U16XY_addRound :: "ref \<Rightarrow> args \<Rightarrow> ref prog" where
  "U16XY_addRound this a = update_xy U16_round js_add this a"

definition U16XY_addTrunc :: "ref \<Rightarrow> args \<Rightarrow> ref prog" where
  "U16XY_addTrunc this a = update_xy U16_trunc js_add this a"

definition U16XY_div :: "ref \<Rightarrow> args \<Rightarrow> ref prog" where
  "U16XY_div this a = update_xy U16 js_div this a"

definition U16XY_divCeil :: "ref \<Rightarrow> args \<Rightarrow> ref prog" where
  "U16XY_divCeil this a = update_xy U16_ceil js_div this a"

definition U16XY_divFloor :: "ref \<Rightarrow> args \<Rightarrow> ref prog" where
  "U16XY_divFloor this a = update_xy U16_floor js_div this a"

definition U16XY_divRound :: "ref \<Rightarrow> args \<Rightarrow> ref prog" where
  "U16XY_divRound this a = update_xy U16_round js_div this a"

definition U16XY_divTrunc :: "ref \<Rightarrow> args \<Rightarrow> ref prog" where
  "U16XY_divTrunc this a = update_xy U16_trunc js_div this a"

definition U16XY_mul :: "ref \<Rightarrow> args \<Rightarrow> ref prog" where
  "U16XY_mul this a = update_xy U16 js_mul this a"

definition U16XY_mulCeil :: "ref \<Rightarrow> args \<Rightarrow> ref prog" where
  "U16XY_mulCeil this a = update_xy U16_ceil js_mul this a"

definition U16XY_mulFloor :: "ref \<Rightarrow> args \<Rightarrow> ref prog" where
  "U16XY_mulFloor this a = update_xy U16_floor js_mul this a"

definition U16XY_mulRound :: "ref \<Rightarrow> args \<Rightarrow> ref prog" where
  "U16XY_mulRound this a = update_xy U16_round js_mul this a"

definition U16XY_mulTrunc :: "ref \<Rightarrow> args \<Rightarrow> ref prog" where
  "U16XY_mulTrunc this a = update_xy U16_trunc js_mul this a"

definition U16XY_sub :: "ref \<Rightarrow> args \<Rightarrow> ref prog" where
  "U16XY_sub this a = update_xy U16 js_sub this a"

definition U16XY_subCeil :: "ref \<Rightarrow> args \<Rightarrow> ref prog" where
  "U16XY_subCeil this a = update_xy U16_ceil js_sub this a"

definition U16XY_subFloor :: "ref \<Rightarrow> args \<Rightarrow> ref prog" where
  "U16XY_subFloor this a = update_xy U16_floor js_sub this a"

definition U16XY_subRound :: "ref \<Rightarrow> args \<Rightarrow> ref prog" where
  "U16XY_subRound this a = update_xy U16_round js_sub this a"

definition U16XY_subTrunc :: "ref \<Rightarrow> args \<Rightarrow> ref prog" where
  "U16XY_subTrunc this a = update_xy U16_trunc js_sub this a"

definition U16XY_max :: "ref \<Rightarrow> args \<Rightarrow> ref prog" where
  "U16XY_max this a = update_xy U16 js_max this a"

definition U16XY_maxCeil :: "ref \<Rightarrow> args \<Rightarrow> ref prog" where
  "U16XY_maxCeil this a = update_xy U16_ceil js_max this a"

definition U16XY_maxFloor :: "ref \<Rightarrow> args \<Rightarrow> ref prog" where
  "U16XY_maxFloor this a = update_xy U16_floor js_max this a"

definition U16XY_maxRound :: "ref \<Rightarrow> args \<Rightarrow> ref prog" where
  "U16XY_maxRound this a = update_xy U16_round js_max this a"

definition U16XY_maxTrunc :: "ref \<Rightarrow> args \<Rightarrow> ref prog" where
  "U16XY_maxTrunc this a = update_xy U16_trunc js_max this a"

definition U16XY_min :: "ref \<Rightarrow> args \<Rightarrow> ref prog" where
  "U16XY_min this a = update_xy U16 js_min this a"

definition U16XY_minCeil :: "ref \<Rightarrow> args \<Rightarrow> ref prog" where
  "U16XY_minCeil this a = update_xy U16_ceil js_min this a"

definition U16XY_minFloor :: "ref \<Rightarrow> args \<Rightarrow> ref prog" where
  "U16XY_minFloor this a = update_xy U16_floor js_min this a"

definition U16XY_minRound :: "ref \<Rightarrow> args \<Rightarrow> ref prog" where
  "U16XY_minRound this a = update_xy U16_round js_min this a"

definition U16XY_minTrunc :: "ref \<Rightarrow> args \<Rightarrow> ref prog" where
  "U16XY_minTrunc this a = update_xy U16_trunc js_min this a"

definition U16XY_set :: "ref \<Rightarrow> args \<Rightarrow> ref prog" where
  "U16XY_set this a = update_xy U16 (\<lambda>v w. w) this a"

definition U16XY_setCeil :: "ref \<Rightarrow> args \<Rightarrow> ref prog" where
  "U16XY_setCeil this a = update_xy U16_ceil (\<lambda>v w. w) this a"

definition U16XY_setFloor :: "ref \<Rightarrow> args \<Rightarrow> ref prog" where
  "U16XY_setFloor this a = update_xy U16_floor (\<lambda>v w. w) this a"

definition U16XY_setRound :: "ref \<Rightarrow> args \<Rightarrow> ref prog" where
  "U16XY_setRound this a = update_xy U16_round (\<lambda>v w. w) this a"

definition U16XY_setTrunc :: "ref \<Rightarrow> args \<Rightarrow> ref prog" where
  "U16XY_setTrunc this a = update_xy U16_trunc (\<lambda>v w. w) this a"

definition U16XY_eq :: "ref \<Rightarrow> args \<Rightarrow> heap \<Rightarrow> bool" where
  "U16XY_eq this a h \<longleftrightarrow> js_eq (get_x this h) (arg_x a) \<and> js_eq (get_y this h) (arg_y a)"

text \<open>The accessors \<^verbatim>\<open>get x() { return this.#x }\<close> and \<^verbatim>\<open>set x(x) { this.#x = x }\<close>, and those of \<open>y\<close>.\<close>

definition U16XY_get_x :: "ref \<Rightarrow> heap \<Rightarrow> number" where
  "U16XY_get_x this h = get_x this h"

definition U16XY_set_x :: "ref \<Rightarrow> number \<Rightarrow> heap \<Rightarrow> heap" where
  "U16XY_set_x this x h = put_x this x h"

definition U16XY_get_y :: "ref \<Rightarrow> heap \<Rightarrow> number" where
  "U16XY_get_y this h = get_y this h"

definition U16XY_set_y :: "ref \<Rightarrow> number \<Rightarrow> heap \<Rightarrow> heap" where
  "U16XY_set_y this y h = put_y this y h"

text \<open>The mutating methods of U16XY that take arguments, and those that take none.\<close>

definition U16XY_mutators :: "(ref \<Rightarrow> args \<Rightarrow> ref prog) list" where
  "U16XY_mutators =
     [U16XY_add,
      U16XY_addCeil,
      U16XY_addFloor,
      U16XY_addRound,
      U16XY_addTrunc,
      U16XY_div,
      U16XY_divCeil,
      U16XY_divFloor,
      U16XY_divRound,
      U16XY_divTrunc,
      U16XY_mul,
      U16XY_mulCeil,
      U16XY_mulFloor,
      U16XY_mulRound,
      U16XY_mulTrunc,
      U16XY_sub,
      U16XY_subCeil,
      U16XY_subFloor,
      U16XY_subRound,
      U16XY_subTrunc,
      U16XY_max,
      U16XY_maxCeil,
      U16XY_maxFloor,
      U16XY_maxRound,
      U16XY_maxTrunc,
      U16XY_min,
      U16XY_minCeil,
      U16XY_minFloor,
      U16XY_minRound,
      U16XY_minTrunc,
      U16XY_set,
      U16XY_setCeil,
      U16XY_setFloor,
      U16XY_setRound,
      U16XY_setTrunc]"

definition U16XY_nullary_mutators :: "(ref \<Rightarrow> ref prog) list" where
  "U16XY_nullary_mutators = [U16XY_abs, U16XY_absClamp]"

section \<open>The class I4XY\<close>

definition I4XY_new :: "args \<Rightarrow> ref prog" where
  "I4XY_new a = construct_xy I4 a"

definition I4XY_ceil :: "args \<Rightarrow> ref prog" where
  "I4XY_ceil a = factory_xy I4_ceil I4XY_new a"

definition I4XY_clamp :: "args \<Rightarrow> ref prog" where
  "I4XY_clamp a = factory_xy I4_clamp I4XY_new a"

definition I4XY_floor :: "args \<Rightarrow> ref prog" where
  "I4XY_floor a = factory_xy I4_floor I4XY_new a"

definition I4XY_round :: "args \<Rightarrow> ref prog" where
  "I4XY_round a = factory_xy I4_round I4XY_new a"

definition I4XY_abs :: "ref \<Rightarrow> ref prog" where
  "I4XY_abs this = assign_xy I4 js_abs js_abs this"

definition I4XY_absClamp :: "ref \<Rightarrow> ref prog" where
  "I4XY_absClamp this = assign_xy I4_clamp js_abs js_abs this"

definition I4XY_add :: "ref \<Rightarrow> args \<Rightarrow> ref prog" where
  "I4XY_add this a = update_xy I4 js_add this a"

definition I4XY_addCeil :: "ref \<Rightarrow> args \<Rightarrow> ref prog" where
  "I4XY_addCeil this a = update_xy I4_ceil js_add this a"

definition I4XY_addClamp :: "ref \<Rightarrow> args \<Rightarrow> ref prog" where
  "I4XY_addClamp this a = update_xy I4_clamp js_add this a"

definition I4XY_addFloor :: "ref \<Rightarrow> args \<Rightarrow> ref prog" where
  "I4XY_addFloor this a = update_xy I4_floor js_add this a"

definition I4XY_addRound :: "ref \<Rightarrow> args \<Rightarrow> ref prog" where
  "I4XY_addRound this a = update_xy I4_round js_add this a"

definition I4XY_div :: "ref \<Rightarrow> args \<Rightarrow> ref prog" where
  "I4XY_div this a = update_xy I4 js_div this a"

definition I4XY_divCeil :: "ref \<Rightarrow> args \<Rightarrow> ref prog" where
  "I4XY_divCeil this a = update_xy I4_ceil js_div this a"

definition I4XY_divClamp :: "ref \<Rightarrow> args \<Rightarrow> ref prog" where
  "I4XY_divClamp this a = update_xy I4_clamp js_div this a"

definition I4XY_divFloor :: "ref \<Rightarrow> args \<Rightarrow> ref prog" where
  "I4XY_divFloor this a = update_xy I4_floor js_div this a"

definition I4XY_divRound :: "ref \<Rightarrow> args \<Rightarrow> ref prog" where
  "I4XY_divRound this a = update_xy I4_round js_div this a"

definition I4XY_mul :: "ref \<Rightarrow> args \<Rightarrow> ref prog" where
  "I4XY_mul this a = update_xy I4 js_mul this a"

definition I4XY_mulCeil :: "ref \<Rightarrow> args \<Rightarrow> ref prog" where
  "I4XY_mulCeil this a = update_xy I4_ceil js_mul this a"

definition I4XY_mulClamp :: "ref \<Rightarrow> args \<Rightarrow> ref prog" where
  "I4XY_mulClamp this a = update_xy I4_clamp js_mul this a"

definition I4XY_mulFloor :: "ref \<Rightarrow> args \<Rightarrow> ref prog" where
  "I4XY_mulFloor this a = update_xy I4_floor js_mul this a"

definition I4XY_mulRound :: "ref \<Rightarrow> args \<Rightarrow> ref prog" where
  "I4XY_mulRound this a = update_xy I4_round js_mul this a"

definition I4XY_sub :: "ref \<Rightarrow> args \<Rightarrow> ref prog" where
  "I4XY_sub this a = update_xy I4 js_sub this a"

definition I4XY_subCeil :: "ref \<Rightarrow> args \<Rightarrow> ref prog" where
  "I4XY_subCeil this a = update_xy I4_ceil js_sub this a"

definition I4XY_subClamp :: "ref \<Rightarrow> args \<Rightarrow> ref prog" where
  "I4XY_subClamp this a = update_xy I4_clamp js_sub this a"

definition I4XY_subFloor :: "ref \<Rightarrow> args \<Rightarrow> ref prog" where
  "I4XY_subFloor this a = update_xy I4_floor js_sub this a"

definition I4XY_subRound :: "ref \<Rightarrow> args \<Rightarrow> ref prog" where
  "I4XY_subRound this a = update_xy I4_round js_sub this a"

definition I4XY_max :: "ref \<Rightarrow> args \<Rightarrow> ref prog" where
  "I4XY_max this a = update_xy I4 js_max this a"

definition I4XY_maxCeil :: "ref \<Rightarrow> args \<Rightarrow> ref prog" where
  "I4XY_maxCeil this a = update_xy I4_ceil js_max this a"

definition I4XY_maxClamp :: "ref \<Rightarrow> args \<Rightarrow> ref prog" where
  "I4XY_maxClamp this a = update_xy I4_clamp js_max this a"

definition I4XY_maxFloor :: "ref \<Rightarrow> args \<Rightarrow> ref prog" where
  "I4XY_maxFloor this a = update_xy I4_floor js_max this a"

definition I4XY_maxRound :: "ref \<Rightarrow> args \<Rightarrow> ref prog" where
  "I4XY_maxRound this a = update_xy I4_round js_max this a"

definition I4XY_min :: "ref \<Rightarrow> args \<Rightarrow> ref prog" where
  "I4XY_min this a = update_xy I4 js_min this a"

definition I4XY_minCeil :: "ref \<Rightarrow> args \<Rightarrow> ref prog" where
  "I4XY_minCeil this a = update_xy I4_ceil js_min this a"

definition I4XY_minClamp :: "ref \<Rightarrow> args \<Rightarrow> ref prog" where
  "I4XY_minClamp this a = update_xy I4_clamp js_min this a"

definition I4XY_minFloor :: "ref \<Rightarrow> args \<Rightarrow> ref prog" where
  "I4XY_minFloor this a = update_xy I4_floor js_min this a"

definition I4XY_minRound :: "ref \<Rightarrow> args \<Rightarrow> ref prog" where
  "I4XY_minRound this a = update_xy I4_round js_min this a"

definition I4XY_set :: "ref \<Rightarrow> args \<Rightarrow> ref prog" where
  "I4XY_set this a = update_xy I4 (\<lambda>v w. w) this a"

definition I4XY_setCeil :: "ref \<Rightarrow> args \<Rightarrow> ref prog" where
  "I4XY_setCeil this a = update_xy I4_ceil (\<lambda>v w. w) this a"

definition I4XY_setClamp :: "ref \<Rightarrow> args \<Rightarrow> ref prog" where
  "I4XY_setClamp this a = update_xy I4_clamp (\<lambda>v w. w) this a"

definition I4XY_setFloor :: "ref \<Rightarrow> args \<Rightarrow> ref prog" where
  "I4XY_setFloor this a = update_xy I4_floor (\<lambda>v w. w) this a"

definition I4XY_setRound :: "ref \<Rightarrow> args \<Rightarrow> ref prog" where
  "I4XY_setRound this a = update_xy I4_round (\<lambda>v w. w) this a"

text \<open>
  The JSON form of an I4XY is a record in which either field may be absent.
  \<open>toJSON\<close> leaves out a field that is \<open>=== 0\<close>; \<open>fromJSON\<close> reads an absent field as 0
  (\<open>json.x ?? 0\<close>) and passes both to the constructor.
\<close>

record xyjson =
  json_x :: "number option"
  json_y :: "number option"

definition I4XY_toJSON :: "ref \<Rightarrow> heap \<Rightarrow> xyjson" where
  "I4XY_toJSON this h =
     \<lparr>json_x = (if js_eq (get_x this h) (Fin 0) then None else Some (get_x this h)),
      json_y = (if js_eq (get_y this h) (Fin 0) then None else Some (get_y this h))\<rparr>"

definition I4XY_fromJSON :: "xyjson \<Rightarrow> ref prog" where
  "I4XY_fromJSON json =
     I4XY_new (Nums (case json_x json of None \<Rightarrow> Fin 0 | Some v \<Rightarrow> v)
                    (case json_y json of None \<Rightarrow> Fin 0 | Some v \<Rightarrow> v))"

definition I4XY_eq :: "ref \<Rightarrow> args \<Rightarrow> heap \<Rightarrow> bool" where
  "I4XY_eq this a h \<longleftrightarrow> js_eq (get_x this h) (arg_x a) \<and> js_eq (get_y this h) (arg_y a)"

text \<open>The accessors \<^verbatim>\<open>get x() { return this.#x }\<close> and \<^verbatim>\<open>set x(x) { this.#x = x }\<close>, and those of \<open>y\<close>.\<close>

definition I4XY_get_x :: "ref \<Rightarrow> heap \<Rightarrow> number" where
  "I4XY_get_x this h = get_x this h"

definition I4XY_set_x :: "ref \<Rightarrow> number \<Rightarrow> heap \<Rightarrow> heap" where
  "I4XY_set_x this x h = put_x this x h"

definition I4XY_get_y :: "ref \<Rightarrow> heap \<Rightarrow> number" where
  "I4XY_get_y this h = get_y this h"

definition I4XY_set_y :: "ref \<Rightarrow> number \<Rightarrow> heap \<Rightarrow> heap" where
  "I4XY_set_y this y h = put_y this y h"

text \<open>The mutating methods of I4XY that take arguments, and those that take none.\<close>

definition I4XY_mutators :: "(ref \<Rightarrow> args \<Rightarrow> ref prog) list" where
  "I4XY_mutators =
     [I4XY_add,
      I4XY_addCeil,
      I4XY_addClamp,
      I4XY_addFloor,
      I4XY_addRound,
      I4XY_div,
      I4XY_divCeil,
      I4XY_divClamp,
      I4XY_divFloor,
      I4XY_divRound,
      I4XY_mul,
      I4XY_mulCeil,
      I4XY_mulClamp,
      I4XY_mulFloor,
      I4XY_mulRound,
      I4XY_sub,
      I4XY_subCeil,
      I4XY_subClamp,
      I4XY_subFloor,
      I4XY_subRound,
      I4XY_max,
      I4XY_maxCeil,
      I4XY_maxClamp,
      I4XY_maxFloor,
      I4XY_maxRound,
      I4XY_min,
      I4XY_minCeil,
      I4XY_minClamp,
      I4XY_minFloor,
      I4XY_minRound,
      I4XY_set,
      I4XY_setCeil,
      I4XY_setClamp,
      I4XY_setFloor,
      I4XY_setRound]"

definition I4XY_nullary_mutators :: "(ref \<Rightarrow> ref prog) list" where
  "I4XY_nullary_mutators = [I4XY_abs, I4XY_absClamp]"

section \<open>Auxiliary lemmas\<close>


subsection \<open>Bit operations of the color unpacking\<close>

lemma mask8: "(255::int) = mask 8"
  by (simp add: mask_eq_exp_minus_1)

lemma js_bitand_byte: "js_bitand a 0xff = take_bit 8 a"
  unfolding js_bitand_def mask8
  by (rule bit_eqI) (auto simp add: bit_simps)

lemma js_shr_low:
  assumes "n \<le> 24"
  shows "take_bit 8 (js_shr c n) = take_bit 8 (drop_bit n c)"
proof (rule bit_eqI)
  fix m
  show "bit (take_bit 8 (js_shr c n)) m = bit (take_bit 8 (drop_bit n c)) m"
  proof (cases "m < 8")
    case False
    then show ?thesis by (simp add: bit_simps)
  next
    case True
    with assms have "n + m < 31 \<or> n + m = 31" by linarith
    then show ?thesis
      using assms True
      by (auto simp add: js_shr_def bit_simps sint_signed_drop_bit_eq min_def)
  qed
qed

lemma channel_byte:
  "n \<le> 24 \<Longrightarrow> js_bitand (js_shr c n) 0xff = (c div 2 ^ n) mod 256"
  using js_shr_low [of n c]
  by (simp add: js_bitand_byte take_bit_eq_mod drop_bit_eq_div)

lemma channel_range:
  "0 \<le> (of_int (b mod 256) :: rat) / 255 \<and> (of_int (b mod 256) :: rat) / 255 \<le> 1"
proof -
  have "0 \<le> b mod 256" "b mod 256 \<le> 255" by simp_all
  then have "(0::rat) \<le> of_int (b mod 256)" "(of_int (b mod 256) :: rat) \<le> 255"
    by (simp_all only: of_int_0_le_iff of_int_le_numeral_iff)
  then show ?thesis by simp
qed

subsection \<open>Scalar values and coercions\<close>

lemma floor_rat_numeral_div:
  "\<lfloor>numeral a / numeral b :: rat\<rfloor> = numeral a div numeral b"
  using floor_divide_of_int_eq [of "numeral a" "numeral b", where ?'a = rat] by simp

lemma floor_rat_neg_numeral_div:
  "\<lfloor>- (numeral a / numeral b) :: rat\<rfloor> = - numeral a div numeral b"
  using floor_divide_of_int_eq [of "- numeral a" "numeral b", where ?'a = rat] by simp

lemma ceiling_rat_numeral_div:
  "\<lceil>numeral a / numeral b :: rat\<rceil> = - (- numeral a div numeral b)"
  unfolding ceiling_def by (simp only: floor_rat_neg_numeral_div)

lemma ceiling_rat_neg_numeral_div:
  "\<lceil>- (numeral a / numeral b) :: rat\<rceil> = - (numeral a div numeral b)"
  unfolding ceiling_def by (simp only: minus_minus floor_rat_numeral_div)

lemmas rat_rounding_numerals =
  floor_rat_numeral_div floor_rat_neg_numeral_div
  ceiling_rat_numeral_div ceiling_rat_neg_numeral_div

lemma is_whole_of_int: "is_whole (of_int k)"
  by (simp add: is_whole_def)

lemma is_whole_ceiling: "is_whole (of_int \<lceil>a\<rceil>)" by (rule is_whole_of_int)

lemma is_whole_floor_eq: "is_whole a \<Longrightarrow> of_int \<lfloor>a\<rfloor> = a"
  by (simp add: is_whole_def)

lemma is_whole_ceiling_eq: "is_whole a \<Longrightarrow> of_int \<lceil>a\<rceil> = a"
  by (metis is_whole_def ceiling_of_int)

lemma cast_scalar: "is_scalar K v \<Longrightarrow> cast K v = Inr v"
  by (cases v) auto

lemma cast_Inr_iff: "cast K r = Inr v \<longleftrightarrow> v = r \<and> is_scalar K r"
  by (cases r) (auto split: if_splits, (cases "kshape K"; simp)+)


lemma saturate_Fin:
  "saturate K (Fin a) =
     (if a < kmin K then Fin (kmin K) else if kmax K < a then Fin (kmax K) else Fin a)"
  by (simp add: saturate_def js_gt_def js_lt_def)

lemma saturate_NegZero:
  "saturate K NegZero =
     (if 0 < kmin K then Fin (kmin K) else if kmax K < 0 then Fin (kmax K) else NegZero)"
  by (simp add: saturate_def js_gt_def js_lt_def)

lemma saturate_PInf: "saturate K PInf = Fin (kmax K)"
  by (simp add: saturate_def js_gt_def js_lt_def)

lemma saturate_NInf: "saturate K NInf = Fin (kmin K)"
  by (simp add: saturate_def js_gt_def js_lt_def)

lemma saturate_NaN: "saturate K NaN = NaN"
  by (simp add: saturate_def js_gt_def js_lt_def)

lemma saturate_scalar: "is_scalar K v \<Longrightarrow> saturate K v = v"
  by (cases v) (auto simp add: saturate_Fin saturate_NegZero)

lemma rounding_whole:
  "is_whole a \<Longrightarrow> rounding s p (Fin a) = Fin a"
proof -
  assume w: "is_whole a"
  then obtain k :: int where a: "a = of_int k" by (metis is_whole_def)
  have r1: "\<lfloor>rat_of_int k + 1 / 2\<rfloor> = k" by linarith
  have r2: "\<lfloor>- rat_of_int k + 1 / 2\<rfloor> = - k" by linarith
  have "num_round (Fin a) = Fin a"
    unfolding a num_round.simps r1 r2 by simp
  then show ?thesis
    by (cases p) (simp_all add: a)
qed

lemma rounding_not_Fin:
  "rounding s p NegZero = NegZero" "rounding s p PInf = PInf"
  "rounding s p NInf = NInf" "rounding s p NaN = NaN"
  by (cases p; simp)+

lemma rounding_Integral_whole:
  "p \<noteq> Cast \<Longrightarrow> \<exists>k. rounding Integral p (Fin a) = Fin (of_int k)"
proof (cases p)
  case Round
  have "- rat_of_int \<lfloor>- a + 1 / 2\<rfloor> = of_int (- \<lfloor>- a + 1 / 2\<rfloor>)" by simp
  then show ?thesis
    unfolding Round rounding.simps num_round.simps by (metis (full_types))
qed (auto intro: exI)

lemma rounding_finite_whole:
  assumes "p \<noteq> Cast" "is_finite r"
  shows "whole_number (rounding Integral p r)"
proof (cases r)
  case (Fin a)
  from rounding_Integral_whole [OF assms(1), of a] obtain k
    where "rounding Integral p (Fin a) = Fin (of_int k)" by blast
  with Fin show ?thesis by (simp add: is_whole_def)
qed (use assms in \<open>simp_all add: rounding_not_Fin\<close>)

lemma rounding_not_finite:
  "\<not> is_finite r \<Longrightarrow> \<not> whole_number (rounding s p r)"
  by (cases r) (simp_all add: rounding_not_Fin)

lemma whole_saturate_scalar:
  assumes "valid_kind K" "kshape K = Integral" "whole_number v"
  shows "is_scalar K (saturate K v)"
  using assms
  by (cases v) (auto simp add: saturate_Fin saturate_NegZero valid_kind_def)

lemma saturate_scalar_Fractional:
  assumes "valid_kind K" "kshape K = Fractional" "r \<noteq> NaN"
  shows "is_scalar K (saturate K r)"
  using assms
  by (cases r)
    (auto simp add: saturate_Fin saturate_NegZero saturate_PInf saturate_NInf valid_kind_def)

lemma bounds_scalar:
  "valid_kind K \<Longrightarrow> is_scalar K (Fin (kmin K)) \<and> is_scalar K (Fin (kmax K))"
  by (auto simp add: valid_kind_def)

lemma coerce_round_family:
  assumes "p \<in> {Ceil, Floor, Round, Trunc}"
  shows "coerce K p r =
     (if whole_number (rounding (kshape K) p r)
      then Inr (saturate K (rounding (kshape K) p r))
      else Inl NonIntegralViolation)"
  using assms by auto

lemma coerce_Integral_finite:
  assumes "valid_kind K" "kshape K = Integral" "p \<noteq> Cast" "is_finite r"
  shows "coerce K p r = Inr (saturate K (rounding Integral p r)) \<and>
         is_scalar K (saturate K (rounding Integral p r))"
proof -
  note w = rounding_finite_whole [OF assms(3,4)]
  note s = whole_saturate_scalar [OF assms(1,2) w]
  have "coerce K p r = Inr (saturate K (rounding Integral p r))"
    using assms(2,3) w by (cases p) simp_all
  with s show ?thesis by simp
qed

lemma coerce_not_finite:
  assumes "p \<in> {Ceil, Floor, Round, Trunc}" "\<not> is_finite r"
  shows "coerce K p r = Inl NonIntegralViolation"
  using rounding_not_finite [OF assms(2), of "kshape K" p] assms(1)
  by (simp add: coerce_round_family)

lemma coerce_Clamp_Integral:
  assumes "valid_kind K" "kshape K = Integral" "r \<noteq> NaN"
  shows "coerce K Clamp r = Inr (saturate K (rounding Integral Clamp r)) \<and>
         is_scalar K (saturate K (rounding Integral Clamp r))"
proof (cases "is_finite r")
  case True
  from coerce_Integral_finite [OF assms(1,2) _ True, of Clamp] show ?thesis by simp
next
  case False
  with assms(3) have "r = PInf \<or> r = NInf" by (cases r) simp_all
  then show ?thesis
    using assms(2) bounds_scalar [OF assms(1)]
    by (auto simp add: saturate_PInf saturate_NInf)
qed

lemma coerce_Clamp_NaN: "coerce K Clamp NaN = Inr NaN"
  by (simp add: saturate_NaN)

lemma coerce_scalar:
  assumes "is_scalar K v" "kshape K = Integral \<or> p = Cast \<or> p = Clamp"
  shows "coerce K p v = Inr v"
proof (cases "p = Cast")
  case True
  then show ?thesis using assms by (simp add: cast_scalar)
next
  case False
  have r: "rounding (kshape K) p v = v"
  proof (cases v)
    case (Fin a)
    show ?thesis
    proof (cases "kshape K")
      case Integral
      then show ?thesis using assms Fin by (simp add: rounding_whole)
    next
      case Fractional
      with False assms(2) show ?thesis by simp
    qed
  qed (simp_all add: rounding_not_Fin)
  have w: "whole_number v" if "kshape K = Integral"
    using assms(1) that by (cases v) simp_all
  have s: "saturate K v = v" by (rule saturate_scalar [OF assms(1)])
  show ?thesis
  proof (cases "p = Clamp")
    case True
    then show ?thesis using r s by simp
  next
    case False
    with \<open>p \<noteq> Cast\<close> assms(2) have i: "kshape K = Integral" by simp
    from False \<open>p \<noteq> Cast\<close> have "p \<in> {Ceil, Floor, Round, Trunc}" by (cases p) simp_all
    then show ?thesis using r s w [OF i] by (simp add: coerce_round_family)
  qed
qed


subsection \<open>The heap and the common method bodies\<close>

lemma put_x_get_x: "put_x this (get_x this h) h = h"
  by (simp add: put_x_def get_x_def)

lemma get_y_put_x: "get_y r (put_x this v h) = get_y r h"
  by (simp add: get_y_def put_x_def)

lemma get_x_put_x: "get_x this (put_x this v h) = v"
  by (simp add: get_x_def put_x_def)

lemma get_x_put_y: "get_x r (put_y this v h) = get_x r h"
  by (simp add: get_x_def put_y_def)

lemma get_y_put_y: "get_y this (put_y this v h) = v"
  by (simp add: get_y_def put_y_def)

lemma assign_xy_returns_this:
  "assign_xy C ex ey this h = (Inr r, h') \<Longrightarrow> r = this"
  by (auto simp add: assign_xy_def split: sum.splits)

lemma assign_xy_failure:
  assumes "assign_xy C ex ey this h = (Inl e, h')"
  shows "\<exists>vx. h' = put_x this vx h"
proof (cases "C (ex (get_x this h))")
  case (Inl e1)
  with assms have "h' = h" by (simp add: assign_xy_def)
  then show ?thesis using put_x_get_x [of this h] by metis
next
  case (Inr vx)
  with assms have "h' = put_x this vx h"
    by (auto simp add: assign_xy_def split: sum.splits)
  then show ?thesis by blast
qed

lemma assign_xy_success:
  assumes "C (ex (get_x this h)) = Inr vx" "C (ey (get_y this h)) = Inr vy"
  shows "assign_xy C ex ey this h = (Inr this, put_y this vy (put_x this vx h))"
  using assms by (simp add: assign_xy_def get_y_put_x)

lemma assign_xy_fail_x:
  assumes "C (ex (get_x this h)) = Inl e"
  shows "assign_xy C ex ey this h = (Inl e, h)"
  using assms by (simp add: assign_xy_def)

lemma assign_xy_fail_y:
  assumes "C (ex (get_x this h)) = Inr vx" "C (ey (get_y this h)) = Inl e"
  shows "assign_xy C ex ey this h = (Inl e, put_x this vx h)"
  using assms by (simp add: assign_xy_def get_y_put_x)

lemmas U16XY_mutator_defs =
  U16XY_add_def U16XY_addCeil_def U16XY_addFloor_def U16XY_addRound_def
  U16XY_addTrunc_def U16XY_div_def U16XY_divCeil_def U16XY_divFloor_def
  U16XY_divRound_def U16XY_divTrunc_def U16XY_mul_def U16XY_mulCeil_def
  U16XY_mulFloor_def U16XY_mulRound_def U16XY_mulTrunc_def U16XY_sub_def
  U16XY_subCeil_def U16XY_subFloor_def U16XY_subRound_def U16XY_subTrunc_def
  U16XY_max_def U16XY_maxCeil_def U16XY_maxFloor_def U16XY_maxRound_def
  U16XY_maxTrunc_def U16XY_min_def U16XY_minCeil_def U16XY_minFloor_def
  U16XY_minRound_def U16XY_minTrunc_def U16XY_set_def U16XY_setCeil_def
  U16XY_setFloor_def U16XY_setRound_def U16XY_setTrunc_def

lemmas I4XY_mutator_defs =
  I4XY_add_def I4XY_addCeil_def I4XY_addClamp_def I4XY_addFloor_def
  I4XY_addRound_def I4XY_div_def I4XY_divCeil_def I4XY_divClamp_def
  I4XY_divFloor_def I4XY_divRound_def I4XY_mul_def I4XY_mulCeil_def
  I4XY_mulClamp_def I4XY_mulFloor_def I4XY_mulRound_def I4XY_sub_def
  I4XY_subCeil_def I4XY_subClamp_def I4XY_subFloor_def I4XY_subRound_def
  I4XY_max_def I4XY_maxCeil_def I4XY_maxClamp_def I4XY_maxFloor_def
  I4XY_maxRound_def I4XY_min_def I4XY_minCeil_def I4XY_minClamp_def
  I4XY_minFloor_def I4XY_minRound_def I4XY_set_def I4XY_setCeil_def
  I4XY_setClamp_def I4XY_setFloor_def I4XY_setRound_def

lemma U16XY_mutators_update_xy:
  "m \<in> set U16XY_mutators \<Longrightarrow> \<exists>C f. m = update_xy C f"
  unfolding U16XY_mutators_def
  by (auto simp add: fun_eq_iff U16XY_mutator_defs)

lemma I4XY_mutators_update_xy:
  "m \<in> set I4XY_mutators \<Longrightarrow> \<exists>C f. m = update_xy C f"
  unfolding I4XY_mutators_def
  by (auto simp add: fun_eq_iff I4XY_mutator_defs)





lemma update_xy_returns_this:
  "update_xy C f this a h = (Inr r, h') \<Longrightarrow> r = this"
  unfolding update_xy_def by (rule assign_xy_returns_this)

lemma update_xy_failure:
  "update_xy C f this a h = (Inl e, h') \<Longrightarrow> \<exists>vx. h' = put_x this vx h"
  unfolding update_xy_def by (rule assign_xy_failure)

lemma update_xy_cases:
  "update_xy C f this a h =
     (case C (f (get_x this h) (arg_x a)) of
        Inl e \<Rightarrow> (Inl e, h)
      | Inr vx \<Rightarrow>
          (case C (f (get_y this h) (arg_y a)) of
             Inl e \<Rightarrow> (Inl e, put_x this vx h)
           | Inr vy \<Rightarrow> (Inr this, put_y this vy (put_x this vx h))))"
  by (simp add: update_xy_def assign_xy_def get_y_put_x split: sum.splits)

lemma update_xy_success:
  assumes "update_xy C f this a h = (Inr r, h')"
  shows "\<exists>vx vy. C (f (get_x this h) (arg_x a)) = Inr vx \<and> C (f (get_y this h) (arg_y a)) = Inr vy
           \<and> h' = put_y this vy (put_x this vx h) \<and> r = this"
  using assms by (auto simp add: update_xy_cases split: sum.splits)

lemma mutators_update_xy:
  assumes "m \<in> set (U16XY_mutators @ I4XY_mutators)"
  shows "\<exists>C f. m = update_xy C f"
  using assms U16XY_mutators_update_xy I4XY_mutators_update_xy by auto

lemma put_x_inject: "put_x this v h = put_x this w h \<Longrightarrow> v = w"
  by (metis get_x_put_x)

lemma scalar_functions:
  "U16 = cast U16_kind" "U16_ceil = coerce U16_kind Ceil" "U16_floor = coerce U16_kind Floor"
  "U16_round = coerce U16_kind Round" "U16_trunc = coerce U16_kind Trunc"
  "I4 = cast I4_kind" "I4_ceil = coerce I4_kind Ceil" "I4_clamp = coerce I4_kind Clamp"
  "I4_floor = coerce I4_kind Floor" "I4_round = coerce I4_kind Round"
  by (rule ext, simp add: U16_def U16_ceil_def U16_floor_def U16_round_def U16_trunc_def
      I4_def I4_ceil_def I4_clamp_def I4_floor_def I4_round_def)+

lemma valid_kinds: "valid_kind U16_kind" "valid_kind I4_kind"
  by (simp_all add: valid_kind_def U16_kind_def I4_kind_def is_whole_def)

lemma integral_kinds: "kshape U16_kind = Integral" "kshape I4_kind = Integral"
  by (simp_all add: U16_kind_def I4_kind_def)

lemmas heap_eval =
  update_xy_def assign_xy_def construct_xy_def factory_xy_def alloc_def empty_heap_def
  get_x_def get_y_def put_x_def put_y_def

lemmas scalar_eval =
  U16_def U16_ceil_def U16_floor_def U16_round_def U16_trunc_def
  I4_def I4_ceil_def I4_clamp_def I4_floor_def I4_round_def
  U16_kind_def I4_kind_def saturate_Fin saturate_NegZero saturate_PInf saturate_NInf
  saturate_NaN is_whole_def rat_rounding_numerals

lemmas number_eval =
  js_mul_def js_div_def js_sub_def js_lt_def js_gt_def js_eq_def js_max_def js_min_def
  zero_of_def inf_of_def

lemma args_overloads:
  assumes "mk = Nums \<or> mk = Rec"
  shows "arg_x (mk x y) = x" "arg_y (mk x y) = y"
  using assms by auto


subsection \<open>Construction at the bounds of a kind\<close>

lemma construct_xy_scalars:
  assumes "is_scalar K (arg_x a)" "is_scalar K (arg_y a)"
  shows "construct_xy (cast K) a h = (Inr (next_ref h), alloc (arg_x a) (arg_y a) h)"
  using assms by (simp add: construct_xy_def cast_scalar)

lemma construct_xy_fail_x:
  assumes "cast K (arg_x a) = Inl e"
  shows "construct_xy (cast K) a h = (Inl e, h)"
  using assms by (simp add: construct_xy_def)

lemma construct_xy_fail_y:
  assumes "is_scalar K (arg_x a)" "cast K (arg_y a) = Inl e"
  shows "construct_xy (cast K) a h = (Inl e, h)"
  using assms by (simp add: construct_xy_def cast_scalar)

lemma cast_outside:
  "u < kmin K \<or> kmax K < u \<Longrightarrow> cast K (Fin u) = Inl RangeViolation"
  by auto

lemma factory_xy_scalars:
  assumes "C (arg_x a) = Inr vx" "C (arg_y a) = Inr vy" "is_scalar K vx" "is_scalar K vy"
  shows "factory_xy C (construct_xy (cast K)) a h = (Inr (next_ref h), alloc vx vy h)"
  using assms construct_xy_scalars [of K "Nums vx vy" h]
  by (simp add: factory_xy_def)

lemma outside_whole:
  assumes "valid_kind K" "kshape K = Integral"
  shows "is_whole (kmin K - 1)" "is_whole (kmax K + 1)"
proof -
  from assms have "is_whole (kmin K)" "is_whole (kmax K)"
    by (simp_all add: valid_kind_def)
  then obtain i j :: int where "kmin K = of_int i" "kmax K = of_int j"
    by (metis is_whole_def)
  then have "kmin K - 1 = of_int (i - 1)" "kmax K + 1 = of_int (j + 1)" by simp_all
  then show "is_whole (kmin K - 1)" "is_whole (kmax K + 1)"
    by (simp_all only: is_whole_of_int)
qed

lemma coerce_outside:
  assumes K: "valid_kind K" "kshape K = Integral" and p: "p \<noteq> Cast"
    and u: "u \<in> {kmin K - 1, kmax K + 1}"
  shows "coerce K p (Fin u) = Inr (Fin (if u < kmin K then kmin K else kmax K))"
    and "is_scalar K (Fin (if u < kmin K then kmin K else kmax K))"
proof -
  from u outside_whole [OF K] have "is_whole u" by auto
  then have r: "rounding Integral p (Fin u) = Fin u" by (rule rounding_whole)
  from K(1) u have s: "saturate K (Fin u) = Fin (if u < kmin K then kmin K else kmax K)"
    by (auto simp add: saturate_Fin valid_kind_def)
  from coerce_Integral_finite [OF K p, of "Fin u"]
  show "coerce K p (Fin u) = Inr (Fin (if u < kmin K then kmin K else kmax K))"
    by (simp add: r s)
  from bounds_scalar [OF K(1)]
  show "is_scalar K (Fin (if u < kmin K then kmin K else kmax K))"
    by (simp del: is_scalar.simps)
qed

section \<open>Claims\<close>

text \<open>
  Claim C1, as stated: when the coercion of one component fails in a mutating operation,
  both components of the vector equal their prior values afterwards. This fails for
  \<open>new U16XY(0, 0).add(1, 70000)\<close>: the Cast of \<open>y\<close> throws after \<open>x\<close> has been
  assigned, and the vector is left at \<open>(1, 0)\<close>.
\<close>

theorem C1_partial_update_counterexample:
  "fst (U16XY_new (Nums (Fin 0) (Fin 0)) empty_heap) = Inr 0
   \<and> U16XY_get_x 0 (snd (U16XY_new (Nums (Fin 0) (Fin 0)) empty_heap)) = Fin 0
   \<and> fst (U16XY_add 0 (Nums (Fin 1) (Fin 70000))
            (snd (U16XY_new (Nums (Fin 0) (Fin 0)) empty_heap))) = Inl RangeViolation
   \<and> U16XY_get_x 0 (snd (U16XY_add 0 (Nums (Fin 1) (Fin 70000))
            (snd (U16XY_new (Nums (Fin 0) (Fin 0)) empty_heap)))) = Fin 1
   \<and> U16XY_get_y 0 (snd (U16XY_add 0 (Nums (Fin 1) (Fin 70000))
            (snd (U16XY_new (Nums (Fin 0) (Fin 0)) empty_heap)))) = Fin 0
   \<and> U16XY_get_x 0 (snd (U16XY_add 0 (Nums (Fin 1) (Fin 70000))
            (snd (U16XY_new (Nums (Fin 0) (Fin 0)) empty_heap))))
     \<noteq> U16XY_get_x 0 (snd (U16XY_new (Nums (Fin 0) (Fin 0)) empty_heap))"
  by (simp add: U16XY_add_def U16XY_new_def U16XY_get_x_def U16XY_get_y_def
      heap_eval scalar_eval)

text \<open>
  Claim C1, amended. When a mutating operation (set, add, sub, mul, div, min, max and
  their policy variants, of U16XY and of I4XY) fails, the component \<open>y\<close> and every other
  object keep their prior values and at most \<open>x\<close> has changed: the heap after the
  failure is the prior heap with some value assigned to \<open>x\<close>. The operation is the
  common body with its coercion \<open>C\<close> and its operator \<open>f\<close>: if the coercion of \<open>x\<close>
  fails, its error is the one reported and the heap is unchanged; if the coercion of \<open>x\<close>
  succeeds, it is the coercion of \<open>y\<close> that failed and \<open>x\<close> already holds its new,
  coerced value. So whenever the same call with another \<open>y\<close> argument succeeds, the \<open>x\<close>
  left behind by the failure is the \<open>x\<close> of that successful update. There is no
  rollback.
\<close>

theorem C1_failure_changes_x_at_most:
  assumes "m \<in> set (U16XY_mutators @ I4XY_mutators)"
    and "m this a h = (Inl e, h')"
  shows "get_y this h' = get_y this h
       \<and> (\<exists>vx. h' = put_x this vx h)
       \<and> (\<exists>C f. m = update_xy C f
             \<and> (\<forall>e1. C (f (get_x this h) (arg_x a)) = Inl e1 \<longrightarrow> e1 = e \<and> h' = h)
             \<and> (\<forall>vx. C (f (get_x this h) (arg_x a)) = Inr vx \<longrightarrow>
                   C (f (get_y this h) (arg_y a)) = Inl e \<and> h' = put_x this vx h))
       \<and> (\<forall>ay r h''. m this (Nums (arg_x a) ay) h = (Inr r, h'') \<longrightarrow>
             h' = put_x this (get_x this h'') h)"
proof -
  from mutators_update_xy [OF assms(1)] obtain C f where m: "m = update_xy C f"
    by blast
  from assms(2) obtain vx where h': "h' = put_x this vx h"
    unfolding m using update_xy_failure by blast
  have y: "get_y this h' = get_y this h"
    unfolding h' by (rule get_y_put_x)
  have fail_x: "e1 = e \<and> h' = h" if "C (f (get_x this h) (arg_x a)) = Inl e1" for e1
    using assms(2) that unfolding m by (simp add: update_xy_cases)
  have fail_y: "C (f (get_y this h) (arg_y a)) = Inl e \<and> h' = put_x this wx h"
    if "C (f (get_x this h) (arg_x a)) = Inr wx" for wx
    using assms(2) that unfolding m
    by (auto simp add: update_xy_cases split: sum.splits)
  have body: "\<exists>C f. m = update_xy C f
             \<and> (\<forall>e1. C (f (get_x this h) (arg_x a)) = Inl e1 \<longrightarrow> e1 = e \<and> h' = h)
             \<and> (\<forall>vx. C (f (get_x this h) (arg_x a)) = Inr vx \<longrightarrow>
                   C (f (get_y this h) (arg_y a)) = Inl e \<and> h' = put_x this vx h)"
    using m fail_x fail_y by blast
  have same: "h' = put_x this (get_x this h'') h"
    if ok: "m this (Nums (arg_x a) ay) h = (Inr r, h'')" for ay r h''
  proof -
    from ok obtain wx wy where wx: "C (f (get_x this h) (arg_x a)) = Inr wx"
      and h'': "h'' = put_y this wy (put_x this wx h)"
      unfolding m using update_xy_success [of C f this "Nums (arg_x a) ay" h r h''] by auto
    from fail_y [OF wx] have "h' = put_x this wx h" by simp
    moreover have "get_x this h'' = wx"
      unfolding h'' by (simp add: get_x_put_y get_x_put_x)
    ultimately show ?thesis by simp
  qed
  from y h' body same show ?thesis by blast
qed

theorem C1_failure_changes_x_at_most_witness:
  "U16XY_add \<in> set (U16XY_mutators @ I4XY_mutators)
   \<and> U16XY_add 0 (Nums (Fin 1) (Fin 70000)) (snd (U16XY_new (Nums (Fin 0) (Fin 0)) empty_heap))
       = (Inl RangeViolation, put_x 0 (Fin 1) (snd (U16XY_new (Nums (Fin 0) (Fin 0)) empty_heap)))
   \<and> get_y 0 (put_x 0 (Fin 1) (snd (U16XY_new (Nums (Fin 0) (Fin 0)) empty_heap)))
       = get_y 0 (snd (U16XY_new (Nums (Fin 0) (Fin 0)) empty_heap))
   \<and> U16XY_add 0 (Nums (Fin 1) (Fin 2)) (snd (U16XY_new (Nums (Fin 0) (Fin 0)) empty_heap))
       = (Inr 0, put_y 0 (Fin 2) (put_x 0 (Fin 1) (snd (U16XY_new (Nums (Fin 0) (Fin 0)) empty_heap))))
   \<and> put_x 0 (Fin 1) (snd (U16XY_new (Nums (Fin 0) (Fin 0)) empty_heap))
       = put_x 0 (get_x 0 (put_y 0 (Fin 2) (put_x 0 (Fin 1)
            (snd (U16XY_new (Nums (Fin 0) (Fin 0)) empty_heap)))))
           (snd (U16XY_new (Nums (Fin 0) (Fin 0)) empty_heap))"
proof -
  define hv where "hv = snd (U16XY_new (Nums (Fin 0) (Fin 0)) empty_heap)"
  have mem: "U16XY_add \<in> set (U16XY_mutators @ I4XY_mutators)"
    by (simp add: U16XY_mutators_def)
  have gx: "get_x 0 hv = Fin 0" and gy: "get_y 0 hv = Fin 0"
    by (simp_all add: hv_def U16XY_new_def heap_eval scalar_eval)
  have c1: "U16 (Fin 1) = Inr (Fin 1)" and c2: "U16 (Fin 2) = Inr (Fin 2)"
    and c3: "U16 (Fin 70000) = Inl RangeViolation"
    by (simp_all add: scalar_eval)
  have fail: "U16XY_add 0 (Nums (Fin 1) (Fin 70000)) hv = (Inl RangeViolation, put_x 0 (Fin 1) hv)"
    by (simp add: U16XY_add_def update_xy_cases gx gy c1 c3)
  have ok: "U16XY_add 0 (Nums (Fin 1) (Fin 2)) hv = (Inr 0, put_y 0 (Fin 2) (put_x 0 (Fin 1) hv))"
    by (simp add: U16XY_add_def update_xy_cases gx gy c1 c2)
  note t = C1_failure_changes_x_at_most [OF mem fail]
  from t have y: "get_y 0 (put_x 0 (Fin 1) hv) = get_y 0 hv"
    by blast
  from t have all: "put_x 0 (Fin 1) hv = put_x 0 (get_x 0 h'') hv"
    if "U16XY_add 0 (Nums (arg_x (Nums (Fin 1) (Fin 70000))) ay) hv = (Inr r, h'')" for ay r h''
    using that by blast
  have x: "put_x 0 (Fin 1) hv = put_x 0 (get_x 0 (put_y 0 (Fin 2) (put_x 0 (Fin 1) hv))) hv"
    by (rule all [unfolded arg_x.simps, OF ok])
  from mem fail y ok x show ?thesis unfolding hv_def by blast
qed




text \<open>
  Claim C3, as stated: for the 16-bit unsigned kind, \<open>new U16XY(5, 10).addCeil(65534.2, -3.7)\<close>
  yields \<open>(65535, 6)\<close>. The \<open>y\<close> component is not 6: \<open>10 - 3.7 = 6.3\<close>, whose ceiling
  is 7.
\<close>

theorem C3_addCeil_y_counterexample:
  "fst (U16XY_new (Nums (Fin 5) (Fin 10)) empty_heap) = Inr 0
   \<and> U16XY_get_y 0 (snd (U16XY_addCeil 0 (Nums (Fin 65534.2) (Fin (- 3.7)))
        (snd (U16XY_new (Nums (Fin 5) (Fin 10)) empty_heap)))) \<noteq> Fin 6"
  by (simp add: U16XY_addCeil_def U16XY_new_def U16XY_get_y_def heap_eval scalar_eval)

text \<open>
  Claim C3, amended. For the 16-bit unsigned kind (range \<open>[0, 65535]\<close>),
  \<open>new U16XY(5, 10).addCeil(65534.2, -3.7)\<close> returns the vector itself with the
  components \<open>(65535, 7)\<close>: \<open>x\<close> adds to 65539.2, is ceiled to 65540 and saturated to
  65535; \<open>y\<close> adds to 6.3 and is ceiled to 7.
\<close>

theorem C3_addCeil_example:
  "fst (U16XY_new (Nums (Fin 5) (Fin 10)) empty_heap) = Inr 0
   \<and> fst (U16XY_addCeil 0 (Nums (Fin 65534.2) (Fin (- 3.7)))
        (snd (U16XY_new (Nums (Fin 5) (Fin 10)) empty_heap))) = Inr 0
   \<and> U16XY_get_x 0 (snd (U16XY_addCeil 0 (Nums (Fin 65534.2) (Fin (- 3.7)))
        (snd (U16XY_new (Nums (Fin 5) (Fin 10)) empty_heap)))) = Fin 65535
   \<and> U16XY_get_y 0 (snd (U16XY_addCeil 0 (Nums (Fin 65534.2) (Fin (- 3.7)))
        (snd (U16XY_new (Nums (Fin 5) (Fin 10)) empty_heap)))) = Fin 7
   \<and> js_add (Fin 5) (Fin 65534.2) = Fin 65539.2
   \<and> num_ceil (Fin 65539.2) = Fin 65540
   \<and> saturate U16_kind (Fin 65540) = Fin 65535
   \<and> js_add (Fin 10) (Fin (- 3.7)) = Fin 6.3
   \<and> num_ceil (Fin 6.3) = Fin 7"
  by (simp add: U16XY_addCeil_def U16XY_new_def U16XY_get_x_def U16XY_get_y_def
      heap_eval scalar_eval)

text \<open>
  Claim C4, as stated: for every Integral kind \<open>K = [min, max]\<close> and every raw number
  \<open>r\<close>, Ceil, Floor, Round and Trunc round \<open>r\<close> and then saturate, so the result always
  lies within \<open>[min, max]\<close>. This fails for the raw numbers that are not finite: the
  rounding of NaN or of an infinity is no whole number, and the coercion reports a
  failure instead of a value in the range. \<open>new U16XY(0, 5).divCeil(0, 1)\<close> hands the
  quotient \<open>0 / 0\<close>, which is NaN, to \<open>U16.ceil\<close> and fails.
\<close>

theorem C4_non_finite_counterexample:
  "coerce U16_kind Ceil NaN = Inl NonIntegralViolation
   \<and> coerce U16_kind Floor NaN = Inl NonIntegralViolation
   \<and> coerce U16_kind Round NaN = Inl NonIntegralViolation
   \<and> coerce U16_kind Trunc NaN = Inl NonIntegralViolation
   \<and> coerce U16_kind Ceil PInf = Inl NonIntegralViolation
   \<and> U16_ceil NaN = Inl NonIntegralViolation
   \<and> js_div (Fin 0) (Fin 0) = NaN
   \<and> fst (U16XY_new (Nums (Fin 0) (Fin 5)) empty_heap) = Inr 0
   \<and> fst (U16XY_divCeil 0 (Nums (Fin 0) (Fin 1))
        (snd (U16XY_new (Nums (Fin 0) (Fin 5)) empty_heap))) = Inl NonIntegralViolation"
  by (simp add: U16XY_new_def U16XY_divCeil_def heap_eval scalar_eval number_eval)

text \<open>
  Claim C4, amended. For every Integral kind \<open>K = [min, max]\<close> and every finite raw number
  \<open>r\<close>, each of Ceil, Floor, Round and Trunc first rounds \<open>r\<close> and then saturates the
  rounded number into \<open>[min, max]\<close>, never the reverse, so the result is a whole number
  within the range; in particular the ceiling of a number between \<open>max\<close> and \<open>max + 1\<close>
  saturates to \<open>max\<close>. On a raw number that is not finite (NaN or an infinity) each of
  the four coercions fails with a non-integral failure.
\<close>

theorem C4_round_then_saturate:
  assumes "valid_kind K" and "kshape K = Integral"
  shows "coerce K Ceil (Fin a) = Inr (saturate K (Fin (of_int \<lceil>a\<rceil>)))
       \<and> coerce K Floor (Fin a) = Inr (saturate K (Fin (of_int \<lfloor>a\<rfloor>)))
       \<and> coerce K Round (Fin a) = Inr (saturate K (num_round (Fin a)))
       \<and> coerce K Trunc (Fin a) = Inr (saturate K (num_trunc (Fin a)))
       \<and> (\<forall>p \<in> {Ceil, Floor, Round, Trunc}. \<forall>r. is_finite r \<longrightarrow>
            (\<exists>v. coerce K p r = Inr v \<and> v = saturate K (rounding Integral p r)
                 \<and> is_finite v \<and> kmin K \<le> fin_val v \<and> fin_val v \<le> kmax K
                 \<and> whole_number v))
       \<and> (\<forall>p \<in> {Ceil, Floor, Round, Trunc}. \<forall>r. \<not> is_finite r \<longrightarrow>
            coerce K p r = Inl NonIntegralViolation)
       \<and> (kmax K < a \<and> a < kmax K + 1 \<longrightarrow> coerce K Ceil (Fin a) = Inr (Fin (kmax K)))"
proof -
  have total: "coerce K p r = Inr (saturate K (rounding Integral p r)) \<and>
         is_scalar K (saturate K (rounding Integral p r))"
    if "p \<noteq> Cast" "is_finite r" for p r
    using coerce_Integral_finite [OF assms that] .
  have ceil: "coerce K Ceil (Fin a) = Inr (saturate K (Fin (of_int \<lceil>a\<rceil>)))"
    using total [of Ceil "Fin a"] by simp
  have floor: "coerce K Floor (Fin a) = Inr (saturate K (Fin (of_int \<lfloor>a\<rfloor>)))"
    using total [of Floor "Fin a"] by simp
  have round: "coerce K Round (Fin a) = Inr (saturate K (num_round (Fin a)))"
    using total [of Round "Fin a"] by simp
  have trunc: "coerce K Trunc (Fin a) = Inr (saturate K (num_trunc (Fin a)))"
    using total [of Trunc "Fin a"] by simp
  have scalar: "is_finite v \<and> kmin K \<le> fin_val v \<and> fin_val v \<le> kmax K \<and> whole_number v"
    if "is_scalar K v" for v
    using that assms(2) by (cases v) simp_all
  have range: "\<exists>v. coerce K p r = Inr v \<and> v = saturate K (rounding Integral p r)
                 \<and> is_finite v \<and> kmin K \<le> fin_val v \<and> fin_val v \<le> kmax K
                 \<and> whole_number v"
    if "p \<in> {Ceil, Floor, Round, Trunc}" "is_finite r" for p r
  proof -
    from that have "p \<noteq> Cast" by auto
    from total [OF this that(2)] scalar show ?thesis by blast
  qed
  have fails: "coerce K p r = Inl NonIntegralViolation"
    if "p \<in> {Ceil, Floor, Round, Trunc}" "\<not> is_finite r" for p r
    by (rule coerce_not_finite [OF that])
  have edge: "coerce K Ceil (Fin a) = Inr (Fin (kmax K))" if "kmax K < a" "a < kmax K + 1"
  proof -
    from assms have "is_whole (kmax K)" by (simp add: valid_kind_def)
    then obtain k :: int where k: "kmax K = of_int k" by (metis is_whole_def)
    from that have "k < \<lceil>a\<rceil>" unfolding k by (simp add: less_ceiling_iff)
    then have "kmax K < of_int \<lceil>a\<rceil>" unfolding k by simp
    moreover from assms have "kmin K \<le> kmax K" by (simp add: valid_kind_def)
    ultimately have "saturate K (Fin (of_int \<lceil>a\<rceil>)) = Fin (kmax K)"
      by (simp add: saturate_Fin)
    with ceil show ?thesis by simp
  qed
  from ceil floor round trunc range fails edge show ?thesis by blast
qed

theorem C4_round_then_saturate_witness:
  "valid_kind U16_kind \<and> kshape U16_kind = Integral
   \<and> kmax U16_kind < 131071 / 2 \<and> 131071 / 2 < kmax U16_kind + 1
   \<and> coerce U16_kind Ceil (Fin (131071 / 2)) = Inr (Fin 65535)
   \<and> coerce U16_kind Floor (Fin (131071 / 2)) = Inr (Fin 65535)
   \<and> Trunc \<in> {Ceil, Floor, Round, Trunc} \<and> \<not> is_finite NInf
   \<and> coerce U16_kind Trunc NInf = Inl NonIntegralViolation"
proof -
  have v: "valid_kind U16_kind"
    by (simp add: valid_kind_def U16_kind_def is_whole_def)
  have i: "kshape U16_kind = Integral"
    by (simp add: U16_kind_def)
  have b: "kmax U16_kind < 131071 / 2 \<and> 131071 / 2 < kmax U16_kind + 1"
    by (simp add: U16_kind_def)
  have p: "Trunc \<in> {Ceil, Floor, Round, Trunc}" and n: "\<not> is_finite NInf"
    by simp_all
  note t = C4_round_then_saturate [OF v i, of "131071 / 2"]
  from t b have "coerce U16_kind Ceil (Fin (131071 / 2)) = Inr (Fin (kmax U16_kind))"
    by blast
  then have c: "coerce U16_kind Ceil (Fin (131071 / 2)) = Inr (Fin 65535)"
    by (simp add: U16_kind_def)
  from t have "coerce U16_kind Floor (Fin (131071 / 2)) =
      Inr (saturate U16_kind (Fin (of_int \<lfloor>131071 / 2 :: rat\<rfloor>)))"
    by blast
  moreover have "\<lfloor>131071 / 2 :: rat\<rfloor> = 65535" by (simp add: rat_rounding_numerals)
  moreover have "saturate U16_kind (Fin 65535) = Fin 65535"
    by (simp add: saturate_Fin U16_kind_def)
  ultimately have f: "coerce U16_kind Floor (Fin (131071 / 2)) = Inr (Fin 65535)"
    by simp
  from t have "\<forall>p \<in> {Ceil, Floor, Round, Trunc}. \<forall>r. \<not> is_finite r \<longrightarrow>
            coerce U16_kind p r = Inl NonIntegralViolation"
    by blast
  with p n have e: "coerce U16_kind Trunc NInf = Inl NonIntegralViolation"
    by blast
  from v i b c f p n e show ?thesis by blast
qed

text \<open>
  Claim C5. For the kinds of the two XY classes (U16, range \<open>[0, 65535]\<close>, and I4, range
  \<open>[-8, 7]\<close>) and both overloads of the arguments: constructing a vector with a
  component exactly equal to \<open>min\<close> or to \<open>max\<close> (the other component being any scalar
  value of the kind) succeeds under Cast, the bare constructor, and the new vector holds
  exactly these two components; constructing with a component equal to \<open>min - 1\<close> or
  \<open>max + 1\<close> fails under Cast with a range failure and leaves the heap untouched, but
  succeeds under each coercing factory of the class (ceil, floor, round and trunc for
  U16XY; ceil, clamp, floor and round for I4XY), and the new vector then holds that
  component saturated to the nearest bound, \<open>min\<close> for \<open>min - 1\<close> and \<open>max\<close> for
  \<open>max + 1\<close>.
\<close>

theorem C5_construction_at_bounds:
  assumes "(new, facs, K) \<in>
      {(U16XY_new, [U16XY_ceil, U16XY_floor, U16XY_round, U16XY_trunc], U16_kind),
       (I4XY_new, [I4XY_ceil, I4XY_clamp, I4XY_floor, I4XY_round], I4_kind)}"
    and "mk = Nums \<or> mk = Rec"
    and "b \<in> {kmin K, kmax K}"
    and "u \<in> {kmin K - 1, kmax K + 1}" and "u' \<in> {kmin K - 1, kmax K + 1}"
    and "is_scalar K v"
  shows "fst (new (mk (Fin b) v) h) = Inr (next_ref h)
       \<and> get_x (next_ref h) (snd (new (mk (Fin b) v) h)) = Fin b
       \<and> get_y (next_ref h) (snd (new (mk (Fin b) v) h)) = v
       \<and> fst (new (mk v (Fin b)) h) = Inr (next_ref h)
       \<and> get_x (next_ref h) (snd (new (mk v (Fin b)) h)) = v
       \<and> get_y (next_ref h) (snd (new (mk v (Fin b)) h)) = Fin b
       \<and> new (mk (Fin u) w) h = (Inl RangeViolation, h)
       \<and> new (mk v (Fin u)) h = (Inl RangeViolation, h)
       \<and> (\<forall>f \<in> set facs.
             fst (f (mk (Fin u) v) h) = Inr (next_ref h)
           \<and> get_x (next_ref h) (snd (f (mk (Fin u) v) h))
               = Fin (if u < kmin K then kmin K else kmax K)
           \<and> get_y (next_ref h) (snd (f (mk (Fin u) v) h)) = v
           \<and> fst (f (mk v (Fin u)) h) = Inr (next_ref h)
           \<and> get_x (next_ref h) (snd (f (mk v (Fin u)) h)) = v
           \<and> get_y (next_ref h) (snd (f (mk v (Fin u)) h))
               = Fin (if u < kmin K then kmin K else kmax K)
           \<and> fst (f (mk (Fin u) (Fin u')) h) = Inr (next_ref h)
           \<and> get_x (next_ref h) (snd (f (mk (Fin u) (Fin u')) h))
               = Fin (if u < kmin K then kmin K else kmax K)
           \<and> get_y (next_ref h) (snd (f (mk (Fin u) (Fin u')) h))
               = Fin (if u' < kmin K then kmin K else kmax K))"
proof -
  have u16: "U16XY_new = construct_xy (cast U16_kind)"
    by (intro ext) (simp add: U16XY_new_def scalar_functions)
  have i4: "I4XY_new = construct_xy (cast I4_kind)"
    by (intro ext) (simp add: I4XY_new_def scalar_functions)
  have u16_facs: "\<exists>p. p \<noteq> Cast \<and> f = factory_xy (coerce U16_kind p) U16XY_new"
    if "f \<in> set [U16XY_ceil, U16XY_floor, U16XY_round, U16XY_trunc]" for f
  proof -
    have "U16XY_ceil = factory_xy (coerce U16_kind Ceil) U16XY_new"
      "U16XY_floor = factory_xy (coerce U16_kind Floor) U16XY_new"
      "U16XY_round = factory_xy (coerce U16_kind Round) U16XY_new"
      "U16XY_trunc = factory_xy (coerce U16_kind Trunc) U16XY_new"
      by (intro ext, simp add: U16XY_ceil_def U16XY_floor_def U16XY_round_def U16XY_trunc_def
          scalar_functions)+
    with that show ?thesis by auto
  qed
  have i4_facs: "\<exists>p. p \<noteq> Cast \<and> f = factory_xy (coerce I4_kind p) I4XY_new"
    if "f \<in> set [I4XY_ceil, I4XY_clamp, I4XY_floor, I4XY_round]" for f
  proof -
    have "I4XY_ceil = factory_xy (coerce I4_kind Ceil) I4XY_new"
      "I4XY_clamp = factory_xy (coerce I4_kind Clamp) I4XY_new"
      "I4XY_floor = factory_xy (coerce I4_kind Floor) I4XY_new"
      "I4XY_round = factory_xy (coerce I4_kind Round) I4XY_new"
      by (intro ext, simp add: I4XY_ceil_def I4XY_clamp_def I4XY_floor_def I4XY_round_def
          scalar_functions)+
    with that show ?thesis by auto
  qed
  from assms(1) consider
    (U16) "new = U16XY_new" "facs = [U16XY_ceil, U16XY_floor, U16XY_round, U16XY_trunc]"
      "K = U16_kind"
    | (I4) "new = I4XY_new" "facs = [I4XY_ceil, I4XY_clamp, I4XY_floor, I4XY_round]"
      "K = I4_kind"
    by auto
  then have gen: "valid_kind K \<and> kshape K = Integral \<and> new = construct_xy (cast K)
      \<and> (\<forall>f. f \<in> set facs \<longrightarrow> (\<exists>p. p \<noteq> Cast \<and> f = factory_xy (coerce K p) new))"
  proof cases
    case U16
    show ?thesis
      unfolding U16 using valid_kinds(1) integral_kinds(1) u16 u16_facs by blast
  next
    case I4
    show ?thesis
      unfolding I4 using valid_kinds(2) integral_kinds(2) i4 i4_facs by blast
  qed
  then have K: "valid_kind K" "kshape K = Integral" and new: "new = construct_xy (cast K)"
    and facs: "\<And>f. f \<in> set facs \<Longrightarrow> \<exists>p. p \<noteq> Cast \<and> f = factory_xy (coerce K p) new"
    by blast+
  note ax = args_overloads [OF assms(2)]
  have ga: "get_x (next_ref h) (alloc vx vy h) = vx" "get_y (next_ref h) (alloc vx vy h) = vy"
    for vx vy
    by (simp_all add: alloc_def get_x_def get_y_def)
  from assms(3) bounds_scalar [OF K(1)] have sb: "is_scalar K (Fin b)" by auto
  from assms(4) K(1) have out: "u < kmin K \<or> kmax K < u" by (auto simp add: valid_kind_def)
  note v = assms(6)
  have ok1: "new (mk (Fin b) v) h = (Inr (next_ref h), alloc (Fin b) v h)"
    unfolding new using construct_xy_scalars [of K "mk (Fin b) v" h] sb v by (simp add: ax)
  have ok2: "new (mk v (Fin b)) h = (Inr (next_ref h), alloc v (Fin b) h)"
    unfolding new using construct_xy_scalars [of K "mk v (Fin b)" h] sb v by (simp add: ax)
  have bad1: "new (mk (Fin u) w) h = (Inl RangeViolation, h)"
    unfolding new using construct_xy_fail_x [of K "mk (Fin u) w" RangeViolation h]
      cast_outside [OF out] by (simp add: ax)
  have bad2: "new (mk v (Fin u)) h = (Inl RangeViolation, h)"
    unfolding new using construct_xy_fail_y [of K "mk v (Fin u)" RangeViolation h]
      cast_outside [OF out] v by (simp add: ax)
  have fac: "f (mk x y) h = (Inr (next_ref h), alloc sx sy h)"
    if f: "f \<in> set facs" and c: "\<And>p. p \<noteq> Cast \<Longrightarrow> coerce K p x = Inr sx"
      "\<And>p. p \<noteq> Cast \<Longrightarrow> coerce K p y = Inr sy"
      and s: "is_scalar K sx" "is_scalar K sy" for f x y sx sy
  proof -
    from facs [OF f] obtain p where p: "p \<noteq> Cast" and fd: "f = factory_xy (coerce K p) new"
      by blast
    show ?thesis
      unfolding fd new
      using factory_xy_scalars [of "coerce K p" "mk x y" sx sy K h] c(1) [OF p] c(2) [OF p] s
      by (simp add: ax)
  qed
  have cv: "coerce K p v = Inr v" if "p \<noteq> Cast" for p
    using coerce_scalar [OF v, of p] K(2) by simp
  have cu: "coerce K p (Fin u) = Inr (Fin (if u < kmin K then kmin K else kmax K))"
    and cu': "coerce K p (Fin u') = Inr (Fin (if u' < kmin K then kmin K else kmax K))"
    if "p \<noteq> Cast" for p
    using coerce_outside(1) [OF K that assms(4)] coerce_outside(1) [OF K that assms(5)]
    by blast+
  have su: "is_scalar K (Fin (if u < kmin K then kmin K else kmax K))"
    and su': "is_scalar K (Fin (if u' < kmin K then kmin K else kmax K))"
    using coerce_outside(2) [OF K _ assms(4), of Clamp]
      coerce_outside(2) [OF K _ assms(5), of Clamp]
    by blast+
  have facs_all: "\<forall>f \<in> set facs.
             fst (f (mk (Fin u) v) h) = Inr (next_ref h)
           \<and> get_x (next_ref h) (snd (f (mk (Fin u) v) h))
               = Fin (if u < kmin K then kmin K else kmax K)
           \<and> get_y (next_ref h) (snd (f (mk (Fin u) v) h)) = v
           \<and> fst (f (mk v (Fin u)) h) = Inr (next_ref h)
           \<and> get_x (next_ref h) (snd (f (mk v (Fin u)) h)) = v
           \<and> get_y (next_ref h) (snd (f (mk v (Fin u)) h))
               = Fin (if u < kmin K then kmin K else kmax K)
           \<and> fst (f (mk (Fin u) (Fin u')) h) = Inr (next_ref h)
           \<and> get_x (next_ref h) (snd (f (mk (Fin u) (Fin u')) h))
               = Fin (if u < kmin K then kmin K else kmax K)
           \<and> get_y (next_ref h) (snd (f (mk (Fin u) (Fin u')) h))
               = Fin (if u' < kmin K then kmin K else kmax K)"
  proof
    fix f
    assume f: "f \<in> set facs"
    have f1: "f (mk (Fin u) v) h
        = (Inr (next_ref h), alloc (Fin (if u < kmin K then kmin K else kmax K)) v h)"
      by (rule fac [OF f cu cv su v])
    have f2: "f (mk v (Fin u)) h
        = (Inr (next_ref h), alloc v (Fin (if u < kmin K then kmin K else kmax K)) h)"
      by (rule fac [OF f cv cu v su])
    have f3: "f (mk (Fin u) (Fin u')) h
        = (Inr (next_ref h), alloc (Fin (if u < kmin K then kmin K else kmax K))
            (Fin (if u' < kmin K then kmin K else kmax K)) h)"
      by (rule fac [OF f cu cu' su su'])
    show "fst (f (mk (Fin u) v) h) = Inr (next_ref h)
           \<and> get_x (next_ref h) (snd (f (mk (Fin u) v) h))
               = Fin (if u < kmin K then kmin K else kmax K)
           \<and> get_y (next_ref h) (snd (f (mk (Fin u) v) h)) = v
           \<and> fst (f (mk v (Fin u)) h) = Inr (next_ref h)
           \<and> get_x (next_ref h) (snd (f (mk v (Fin u)) h)) = v
           \<and> get_y (next_ref h) (snd (f (mk v (Fin u)) h))
               = Fin (if u < kmin K then kmin K else kmax K)
           \<and> fst (f (mk (Fin u) (Fin u')) h) = Inr (next_ref h)
           \<and> get_x (next_ref h) (snd (f (mk (Fin u) (Fin u')) h))
               = Fin (if u < kmin K then kmin K else kmax K)
           \<and> get_y (next_ref h) (snd (f (mk (Fin u) (Fin u')) h))
               = Fin (if u' < kmin K then kmin K else kmax K)"
      by (simp only: f1 f2 f3 fst_conv snd_conv ga simp_thms)
  qed
  have cast_ok: "fst (new (mk (Fin b) v) h) = Inr (next_ref h)
       \<and> get_x (next_ref h) (snd (new (mk (Fin b) v) h)) = Fin b
       \<and> get_y (next_ref h) (snd (new (mk (Fin b) v) h)) = v
       \<and> fst (new (mk v (Fin b)) h) = Inr (next_ref h)
       \<and> get_x (next_ref h) (snd (new (mk v (Fin b)) h)) = v
       \<and> get_y (next_ref h) (snd (new (mk v (Fin b)) h)) = Fin b"
    by (simp only: ok1 ok2 fst_conv snd_conv ga simp_thms)
  from cast_ok bad1 bad2 facs_all show ?thesis by blast
qed

theorem C5_construction_at_bounds_witness:
  "(U16XY_new, [U16XY_ceil, U16XY_floor, U16XY_round, U16XY_trunc], U16_kind) \<in>
      {(U16XY_new, [U16XY_ceil, U16XY_floor, U16XY_round, U16XY_trunc], U16_kind),
       (I4XY_new, [I4XY_ceil, I4XY_clamp, I4XY_floor, I4XY_round], I4_kind)}
   \<and> (Nums = Nums \<or> Nums = Rec)
   \<and> 65535 \<in> {kmin U16_kind, kmax U16_kind}
   \<and> - 1 \<in> {kmin U16_kind - 1, kmax U16_kind + 1}
   \<and> 65536 \<in> {kmin U16_kind - 1, kmax U16_kind + 1}
   \<and> is_scalar U16_kind (Fin 3)
   \<and> fst (U16XY_new (Nums (Fin 65535) (Fin 3)) empty_heap) = Inr 0
   \<and> get_x 0 (snd (U16XY_new (Nums (Fin 65535) (Fin 3)) empty_heap)) = Fin 65535
   \<and> get_y 0 (snd (U16XY_new (Nums (Fin 65535) (Fin 3)) empty_heap)) = Fin 3
   \<and> U16XY_new (Nums (Fin (- 1)) (Fin 3)) empty_heap = (Inl RangeViolation, empty_heap)
   \<and> U16XY_ceil \<in> set [U16XY_ceil, U16XY_floor, U16XY_round, U16XY_trunc]
   \<and> fst (U16XY_ceil (Nums (Fin (- 1)) (Fin 65536)) empty_heap) = Inr 0
   \<and> get_x 0 (snd (U16XY_ceil (Nums (Fin (- 1)) (Fin 65536)) empty_heap)) = Fin 0
   \<and> get_y 0 (snd (U16XY_ceil (Nums (Fin (- 1)) (Fin 65536)) empty_heap)) = Fin 65535"
proof -
  have c: "(U16XY_new, [U16XY_ceil, U16XY_floor, U16XY_round, U16XY_trunc], U16_kind) \<in>
      {(U16XY_new, [U16XY_ceil, U16XY_floor, U16XY_round, U16XY_trunc], U16_kind),
       (I4XY_new, [I4XY_ceil, I4XY_clamp, I4XY_floor, I4XY_round], I4_kind)}"
    by simp
  have k: "Nums = Nums \<or> Nums = Rec" by simp
  have b: "65535 \<in> {kmin U16_kind, kmax U16_kind}"
    and l: "- 1 \<in> {kmin U16_kind - 1, kmax U16_kind + 1}"
    and l': "65536 \<in> {kmin U16_kind - 1, kmax U16_kind + 1}"
    and v: "is_scalar U16_kind (Fin 3)"
    by (simp_all add: U16_kind_def is_whole_def)
  have f: "U16XY_ceil \<in> set [U16XY_ceil, U16XY_floor, U16XY_round, U16XY_trunc]"
    by simp
  have n: "next_ref empty_heap = 0" by (simp add: empty_heap_def)
  have s: "(if (- 1 :: rat) < kmin U16_kind then kmin U16_kind else kmax U16_kind) = 0"
    "(if (65536 :: rat) < kmin U16_kind then kmin U16_kind else kmax U16_kind) = 65535"
    by (simp_all add: U16_kind_def)
  note t = C5_construction_at_bounds [OF c k b l l' v, where h = empty_heap and w = "Fin 3",
      unfolded n s]
  from t have 1: "fst (U16XY_new (Nums (Fin 65535) (Fin 3)) empty_heap) = Inr 0
      \<and> get_x 0 (snd (U16XY_new (Nums (Fin 65535) (Fin 3)) empty_heap)) = Fin 65535
      \<and> get_y 0 (snd (U16XY_new (Nums (Fin 65535) (Fin 3)) empty_heap)) = Fin 3"
    by blast
  from t have 2: "U16XY_new (Nums (Fin (- 1)) (Fin 3)) empty_heap = (Inl RangeViolation, empty_heap)"
    by blast
  from t have "\<forall>f \<in> set [U16XY_ceil, U16XY_floor, U16XY_round, U16XY_trunc].
       fst (f (Nums (Fin (- 1)) (Fin 65536)) empty_heap) = Inr 0
     \<and> get_x 0 (snd (f (Nums (Fin (- 1)) (Fin 65536)) empty_heap)) = Fin 0
     \<and> get_y 0 (snd (f (Nums (Fin (- 1)) (Fin 65536)) empty_heap)) = Fin 65535"
    by blast
  then have 3: "fst (U16XY_ceil (Nums (Fin (- 1)) (Fin 65536)) empty_heap) = Inr 0
     \<and> get_x 0 (snd (U16XY_ceil (Nums (Fin (- 1)) (Fin 65536)) empty_heap)) = Fin 0
     \<and> get_y 0 (snd (U16XY_ceil (Nums (Fin (- 1)) (Fin 65536)) empty_heap)) = Fin 65535"
    using f by (rule bspec)
  have ev: "get_x 0 (snd (U16XY_new (Nums (Fin 65535) (Fin 3)) empty_heap)) = Fin 65535"
    "get_x 0 (snd (U16XY_ceil (Nums (Fin (- 1)) (Fin 65536)) empty_heap)) = Fin 0"
    "get_y 0 (snd (U16XY_ceil (Nums (Fin (- 1)) (Fin 65536)) empty_heap)) = Fin 65535"
    by (simp_all add: U16XY_new_def U16XY_ceil_def heap_eval scalar_eval)
  from c k b l l' v 1 2 f 3 ev show ?thesis by blast
qed

text \<open>
  Claim C6, as stated: for every valid kind \<open>K = [min, max]\<close> and every raw value \<open>r\<close>,
  \<open>Clamp r\<close> lies within \<open>[min, max]\<close>. This fails for NaN: neither comparison of the
  saturation holds of it, so Clamp passes it through unchanged, and NaN is within no
  range. The classes do pass it: \<open>new I4XY(0, 5).divClamp(0, 1)\<close> clamps the quotient
  \<open>0 / 0\<close> and leaves \<open>x\<close> at NaN.
\<close>

theorem C6_clamp_NaN_counterexample:
  "coerce I4_kind Clamp NaN = Inr NaN
   \<and> I4_clamp NaN = Inr NaN
   \<and> \<not> is_scalar I4_kind NaN
   \<and> \<not> js_lt NaN (Fin (kmin I4_kind)) \<and> \<not> js_gt NaN (Fin (kmax I4_kind))
   \<and> js_div (Fin 0) (Fin 0) = NaN
   \<and> fst (I4XY_new (Nums (Fin 0) (Fin 5)) empty_heap) = Inr 0
   \<and> fst (I4XY_divClamp 0 (Nums (Fin 0) (Fin 1))
        (snd (I4XY_new (Nums (Fin 0) (Fin 5)) empty_heap))) = Inr 0
   \<and> I4XY_get_x 0 (snd (I4XY_divClamp 0 (Nums (Fin 0) (Fin 1))
        (snd (I4XY_new (Nums (Fin 0) (Fin 5)) empty_heap)))) = NaN"
  by (simp add: I4XY_new_def I4XY_divClamp_def I4XY_get_x_def heap_eval scalar_eval
      number_eval)

text \<open>
  Claim C6, amended. For every valid kind \<open>K = [min, max]\<close> and every raw value \<open>r\<close>
  other than NaN, \<open>Clamp r\<close> is a scalar value of the kind, a finite number within
  \<open>[min, max]\<close>; \<open>Clamp NaN\<close> is NaN. Whenever \<open>r\<close> already lies within \<open>[min, max]\<close>
  (and is whole, for an Integral kind), \<open>Clamp r\<close>, \<open>Cast r\<close> and \<open>r\<close> are equal.
\<close>

theorem C6_clamp_in_range_and_identity:
  assumes "valid_kind K"
  shows "(r \<noteq> NaN \<longrightarrow>
            (\<exists>v. coerce K Clamp r = Inr v \<and> is_scalar K v \<and> is_finite v
                 \<and> kmin K \<le> fin_val v \<and> fin_val v \<le> kmax K))
       \<and> coerce K Clamp NaN = Inr NaN
       \<and> (is_scalar K r \<longrightarrow> coerce K Clamp r = Inr r \<and> coerce K Cast r = Inr r)"
proof -
  have scalar: "is_finite v \<and> kmin K \<le> fin_val v \<and> fin_val v \<le> kmax K"
    if "is_scalar K v" for v
    using that by (cases v) simp_all
  have in_range: "\<exists>v. coerce K Clamp r = Inr v \<and> is_scalar K v \<and> is_finite v
                 \<and> kmin K \<le> fin_val v \<and> fin_val v \<le> kmax K"
    if r: "r \<noteq> NaN"
  proof -
    have "\<exists>s. coerce K Clamp r = Inr s \<and> is_scalar K s"
    proof (cases "kshape K")
      case Integral
      from coerce_Clamp_Integral [OF assms Integral r]
      show ?thesis by simp
    next
      case Fractional
      from saturate_scalar_Fractional [OF assms Fractional r]
      show ?thesis using Fractional by simp
    qed
    with scalar show ?thesis by blast
  qed
  have ident: "coerce K Clamp r = Inr r \<and> coerce K Cast r = Inr r" if "is_scalar K r"
    using coerce_scalar [OF that, of Clamp] coerce_scalar [OF that, of Cast] by simp
  from in_range coerce_Clamp_NaN [of K] ident show ?thesis by blast
qed

theorem C6_clamp_in_range_and_identity_witness:
  "valid_kind I4_kind
   \<and> Fin (19 / 2) \<noteq> NaN
   \<and> (\<exists>v. coerce I4_kind Clamp (Fin (19 / 2)) = Inr v \<and> is_scalar I4_kind v \<and> is_finite v
          \<and> kmin I4_kind \<le> fin_val v \<and> fin_val v \<le> kmax I4_kind)
   \<and> is_scalar I4_kind (Fin (- 3))
   \<and> coerce I4_kind Clamp (Fin (- 3)) = Inr (Fin (- 3))
   \<and> coerce I4_kind Cast (Fin (- 3)) = Inr (Fin (- 3))"
proof -
  have v: "valid_kind I4_kind"
    by (simp add: valid_kind_def I4_kind_def is_whole_def)
  have n: "Fin (19 / 2) \<noteq> NaN" by simp
  have s: "is_scalar I4_kind (Fin (- 3))"
    by (simp add: I4_kind_def is_whole_def)
  from C6_clamp_in_range_and_identity [OF v, of "Fin (19 / 2)"] n
  have c: "\<exists>v. coerce I4_kind Clamp (Fin (19 / 2)) = Inr v \<and> is_scalar I4_kind v \<and> is_finite v
          \<and> kmin I4_kind \<le> fin_val v \<and> fin_val v \<le> kmax I4_kind"
    by blast
  from C6_clamp_in_range_and_identity [OF v, of "Fin (- 3)"] s
  have "coerce I4_kind Clamp (Fin (- 3)) = Inr (Fin (- 3))
      \<and> coerce I4_kind Cast (Fin (- 3)) = Inr (Fin (- 3))" by blast
  with v n s c show ?thesis by blast
qed

text \<open>
  Claim C7. For every representable I4XY vector \<open>v\<close> (an allocated object whose two
  components are scalar values of I4), \<open>toJSON\<close> omits a component exactly when it
  equals 0 (\<open>=== 0\<close>, which holds of both zeros), and \<open>fromJSON(toJSON(v))\<close>, which
  reads a missing field as 0, succeeds and constructs a new vector that is \<open>eq\<close>-equal
  to \<open>v\<close>, in both directions, with \<open>v\<close> itself left as it was. The components of the
  new vector are those of \<open>v\<close>, a negative zero being read back as 0.
\<close>

theorem C7_fromJSON_toJSON_roundtrip:
  assumes "this < next_ref h"
    and "is_scalar I4_kind (I4XY_get_x this h)"
    and "is_scalar I4_kind (I4XY_get_y this h)"
  shows "(json_x (I4XY_toJSON this h) = None)
           = (I4XY_get_x this h = Fin 0 \<or> I4XY_get_x this h = NegZero)
       \<and> (json_y (I4XY_toJSON this h) = None)
           = (I4XY_get_y this h = Fin 0 \<or> I4XY_get_y this h = NegZero)
       \<and> (\<exists>r h'. I4XY_fromJSON (I4XY_toJSON this h) h = (Inr r, h')
             \<and> r \<noteq> this
             \<and> I4XY_get_x this h' = I4XY_get_x this h
             \<and> I4XY_get_y this h' = I4XY_get_y this h
             \<and> I4XY_get_x r h'
                 = (if I4XY_get_x this h = NegZero then Fin 0 else I4XY_get_x this h)
             \<and> I4XY_get_y r h'
                 = (if I4XY_get_y this h = NegZero then Fin 0 else I4XY_get_y this h)
             \<and> I4XY_eq r (Rec (I4XY_get_x this h') (I4XY_get_y this h')) h'
             \<and> I4XY_eq this (Rec (I4XY_get_x r h') (I4XY_get_y r h')) h')"
proof -
  define vx where "vx = get_x this h"
  define vy where "vy = get_y this h"
  define wx where "wx = (if vx = NegZero then Fin 0 else vx)"
  define wy where "wy = (if vy = NegZero then Fin 0 else vy)"
  from assms(2,3) have sx: "is_scalar I4_kind vx" and sy: "is_scalar I4_kind vy"
    by (simp_all add: vx_def vy_def I4XY_get_x_def I4XY_get_y_def)
  have eq0: "js_eq v (Fin 0) = (v = Fin 0 \<or> v = NegZero)" if "is_scalar I4_kind v" for v
    using that by (cases v) (auto simp add: js_eq_def)
  have readback: "(if js_eq v (Fin 0) then Fin 0 else v) = (if v = NegZero then Fin 0 else v)"
    if "is_scalar I4_kind v" for v
    using eq0 [OF that] by auto
  have nz: "is_scalar I4_kind (if v = NegZero then Fin 0 else v)"
    and same: "js_eq (if v = NegZero then Fin 0 else v) v"
      "js_eq v (if v = NegZero then Fin 0 else v)"
    if "is_scalar I4_kind v" for v
    using that by (cases v; simp add: js_eq_def I4_kind_def is_whole_def)+
  have "(case json_x (I4XY_toJSON this h) of None \<Rightarrow> Fin 0 | Some v \<Rightarrow> v)
          = (if js_eq vx (Fin 0) then Fin 0 else vx)"
    by (simp add: I4XY_toJSON_def vx_def)
  then have jx: "(case json_x (I4XY_toJSON this h) of None \<Rightarrow> Fin 0 | Some v \<Rightarrow> v) = wx"
    by (simp only: readback [OF sx] wx_def)
  have "(case json_y (I4XY_toJSON this h) of None \<Rightarrow> Fin 0 | Some v \<Rightarrow> v)
          = (if js_eq vy (Fin 0) then Fin 0 else vy)"
    by (simp add: I4XY_toJSON_def vy_def)
  then have jy: "(case json_y (I4XY_toJSON this h) of None \<Rightarrow> Fin 0 | Some v \<Rightarrow> v) = wy"
    by (simp only: readback [OF sy] wy_def)
  have omit: "(json_x (I4XY_toJSON this h) = None) = (vx = Fin 0 \<or> vx = NegZero)"
    "(json_y (I4XY_toJSON this h) = None) = (vy = Fin 0 \<or> vy = NegZero)"
    using eq0 [OF sx] eq0 [OF sy]
    by (simp_all add: I4XY_toJSON_def vx_def vy_def)
  define r where "r = next_ref h"
  define h' where "h' = alloc wx wy h"
  have rt: "I4XY_fromJSON (I4XY_toJSON this h) h = (Inr r, h')"
    unfolding I4XY_fromJSON_def jx jy I4XY_new_def scalar_functions r_def h'_def
    using construct_xy_scalars [of I4_kind "Nums wx wy" h] nz [OF sx] nz [OF sy]
    by (simp add: wx_def wy_def)
  from assms(1) have ne: "r \<noteq> this" "this \<noteq> next_ref h" by (simp_all add: r_def)
  have prior: "get_x this h' = vx" "get_y this h' = vy"
    unfolding h'_def vx_def vy_def using ne(2)
    by (simp_all add: alloc_def get_x_def get_y_def)
  have fresh: "get_x r h' = wx" "get_y r h' = wy"
    unfolding h'_def r_def by (simp_all add: alloc_def get_x_def get_y_def)
  have "I4XY_eq r (Rec (I4XY_get_x this h') (I4XY_get_y this h')) h'"
    and "I4XY_eq this (Rec (I4XY_get_x r h') (I4XY_get_y r h')) h'"
    using same [OF sx] same [OF sy]
    by (simp_all add: I4XY_eq_def I4XY_get_x_def I4XY_get_y_def prior fresh wx_def wy_def)
  with rt ne(1) prior fresh omit show ?thesis
    unfolding I4XY_get_x_def I4XY_get_y_def vx_def vy_def wx_def wy_def by blast
qed

theorem C7_fromJSON_toJSON_roundtrip_witness:
  "(0::nat) < next_ref (snd (I4XY_new (Nums (Fin 0) (Fin (- 8))) empty_heap))
   \<and> is_scalar I4_kind (I4XY_get_x 0 (snd (I4XY_new (Nums (Fin 0) (Fin (- 8))) empty_heap)))
   \<and> is_scalar I4_kind (I4XY_get_y 0 (snd (I4XY_new (Nums (Fin 0) (Fin (- 8))) empty_heap)))
   \<and> I4XY_toJSON 0 (snd (I4XY_new (Nums (Fin 0) (Fin (- 8))) empty_heap))
       = \<lparr>json_x = None, json_y = Some (Fin (- 8))\<rparr>
   \<and> (\<exists>r h'. I4XY_fromJSON (I4XY_toJSON 0 (snd (I4XY_new (Nums (Fin 0) (Fin (- 8))) empty_heap)))
                (snd (I4XY_new (Nums (Fin 0) (Fin (- 8))) empty_heap)) = (Inr r, h')
          \<and> I4XY_get_x r h' = Fin 0 \<and> I4XY_get_y r h' = Fin (- 8)
          \<and> I4XY_eq r (Rec (I4XY_get_x 0 h') (I4XY_get_y 0 h')) h')"
proof -
  define hv where "hv = snd (I4XY_new (Nums (Fin 0) (Fin (- 8))) empty_heap)"
  have a: "(0::nat) < next_ref hv"
    by (simp add: hv_def I4XY_new_def heap_eval scalar_eval)
  have gx: "I4XY_get_x 0 hv = Fin 0" and gy: "I4XY_get_y 0 hv = Fin (- 8)"
    by (simp_all add: hv_def I4XY_new_def I4XY_get_x_def I4XY_get_y_def heap_eval scalar_eval)
  have sx: "is_scalar I4_kind (I4XY_get_x 0 hv)" and sy: "is_scalar I4_kind (I4XY_get_y 0 hv)"
    unfolding gx gy by (simp_all add: I4_kind_def is_whole_def)
  have j: "I4XY_toJSON 0 hv = \<lparr>json_x = None, json_y = Some (Fin (- 8))\<rparr>"
    using gx gy by (simp add: I4XY_toJSON_def I4XY_get_x_def I4XY_get_y_def js_eq_def)
  from C7_fromJSON_toJSON_roundtrip [OF a sx sy]
  have "\<exists>r h'. I4XY_fromJSON (I4XY_toJSON 0 hv) hv = (Inr r, h')
          \<and> I4XY_get_x r h' = Fin 0 \<and> I4XY_get_y r h' = Fin (- 8)
          \<and> I4XY_eq r (Rec (I4XY_get_x 0 h') (I4XY_get_y 0 h')) h'"
    unfolding gx gy by auto
  with a sx sy j show ?thesis unfolding hv_def by blast
qed

text \<open>
  Claim C8, as stated: every mutating operation returns the instance it mutated, and
  consequently \<open>vec.set(a, b).add(c, d)\<close> leaves \<open>vec\<close> with the components of a freshly
  constructed vector set to \<open>(a + c, b + d)\<close> under the same coercion policy. The second
  part fails for the policies that round. On a U16XY, \<open>setCeil(1.5, 0)\<close> followed by
  \<open>addCeil(1.5, 0)\<close> leaves \<open>x = 4\<close>, since the first call has already rounded 1.5 up
  to 2, while a fresh vector set to \<open>(1.5 + 1.5, 0 + 0) = (3, 0)\<close> under Ceil, by
  \<open>setCeil\<close> or by the factory \<open>ceil\<close>, holds \<open>x = 3\<close>.
\<close>

theorem C8_chain_ceil_counterexample:
  "fst (U16XY_new (Nums (Fin 0) (Fin 0)) empty_heap) = Inr 0
   \<and> fst (U16XY_setCeil 0 (Nums (Fin (3 / 2)) (Fin 0))
        (snd (U16XY_new (Nums (Fin 0) (Fin 0)) empty_heap))) = Inr 0
   \<and> fst (U16XY_addCeil 0 (Nums (Fin (3 / 2)) (Fin 0))
        (snd (U16XY_setCeil 0 (Nums (Fin (3 / 2)) (Fin 0))
          (snd (U16XY_new (Nums (Fin 0) (Fin 0)) empty_heap))))) = Inr 0
   \<and> U16XY_get_x 0 (snd (U16XY_addCeil 0 (Nums (Fin (3 / 2)) (Fin 0))
        (snd (U16XY_setCeil 0 (Nums (Fin (3 / 2)) (Fin 0))
          (snd (U16XY_new (Nums (Fin 0) (Fin 0)) empty_heap)))))) = Fin 4
   \<and> js_add (Fin (3 / 2)) (Fin (3 / 2)) = Fin 3
   \<and> js_add (Fin 0) (Fin 0) = Fin 0
   \<and> fst (U16XY_setCeil 0 (Nums (Fin 3) (Fin 0))
        (snd (U16XY_new (Nums (Fin 0) (Fin 0)) empty_heap))) = Inr 0
   \<and> U16XY_get_x 0 (snd (U16XY_setCeil 0 (Nums (Fin 3) (Fin 0))
        (snd (U16XY_new (Nums (Fin 0) (Fin 0)) empty_heap)))) = Fin 3
   \<and> fst (U16XY_ceil (Nums (Fin 3) (Fin 0)) empty_heap) = Inr 0
   \<and> U16XY_get_x 0 (snd (U16XY_ceil (Nums (Fin 3) (Fin 0)) empty_heap)) = Fin 3
   \<and> U16XY_get_x 0 (snd (U16XY_addCeil 0 (Nums (Fin (3 / 2)) (Fin 0))
        (snd (U16XY_setCeil 0 (Nums (Fin (3 / 2)) (Fin 0))
          (snd (U16XY_new (Nums (Fin 0) (Fin 0)) empty_heap))))))
     \<noteq> U16XY_get_x 0 (snd (U16XY_setCeil 0 (Nums (Fin 3) (Fin 0))
        (snd (U16XY_new (Nums (Fin 0) (Fin 0)) empty_heap))))"
  by (simp add: U16XY_new_def U16XY_setCeil_def U16XY_addCeil_def U16XY_ceil_def
      U16XY_get_x_def heap_eval scalar_eval)

text \<open>
  Claim C8, amended. Every mutating operation returns the instance it mutated: when it
  returns, the returned reference is the receiver. Under the default (Cast) policy,
  whenever \<open>vec.set(a, b)\<close> and then \<open>.add(c, d)\<close> on its result succeed, both calls
  return \<open>vec\<close>, the components of \<open>vec\<close> are \<open>a + c\<close> and \<open>b + d\<close>, and constructing
  \<open>new Vec(a + c, b + d)\<close> succeeds and gives a new vector with the same two
  components. This holds for U16XY and for I4XY. Nothing of the kind is stated for the
  policies that round, where each call coerces its own result.
\<close>

theorem C8_mutators_return_this_and_chain:
  "(m \<in> set (U16XY_mutators @ I4XY_mutators) \<and> m this args h = (Inr r, h') \<longrightarrow> r = this)
   \<and> (n \<in> set (U16XY_nullary_mutators @ I4XY_nullary_mutators) \<and> n that g = (Inr q, g')
        \<longrightarrow> q = that)
   \<and> (U16XY_set vec (Nums a b) h0 = (Inr r1, h1) \<and> U16XY_add r1 (Nums c d) h1 = (Inr r2, h2)
        \<longrightarrow> r1 = vec \<and> r2 = vec
          \<and> U16XY_get_x vec h2 = js_add a c \<and> U16XY_get_y vec h2 = js_add b d
          \<and> fst (U16XY_new (Nums (js_add a c) (js_add b d)) hf) = Inr (next_ref hf)
          \<and> U16XY_get_x (next_ref hf) (snd (U16XY_new (Nums (js_add a c) (js_add b d)) hf))
              = U16XY_get_x vec h2
          \<and> U16XY_get_y (next_ref hf) (snd (U16XY_new (Nums (js_add a c) (js_add b d)) hf))
              = U16XY_get_y vec h2)
   \<and> (I4XY_set ivec (Nums ja jb) i0 = (Inr s1, i1) \<and> I4XY_add s1 (Nums jc jd) i1 = (Inr s2, i2)
        \<longrightarrow> s1 = ivec \<and> s2 = ivec
          \<and> I4XY_get_x ivec i2 = js_add ja jc \<and> I4XY_get_y ivec i2 = js_add jb jd
          \<and> fst (I4XY_new (Nums (js_add ja jc) (js_add jb jd)) jf) = Inr (next_ref jf)
          \<and> I4XY_get_x (next_ref jf) (snd (I4XY_new (Nums (js_add ja jc) (js_add jb jd)) jf))
              = I4XY_get_x ivec i2
          \<and> I4XY_get_y (next_ref jf) (snd (I4XY_new (Nums (js_add ja jc) (js_add jb jd)) jf))
              = I4XY_get_y ivec i2)"
proof -
  have binary: "r = this"
    if "m \<in> set (U16XY_mutators @ I4XY_mutators)" "m this args h = (Inr r, h')"
  proof -
    from mutators_update_xy [OF that(1)] obtain C f where "m = update_xy C f" by blast
    with that(2) show ?thesis using update_xy_returns_this by metis
  qed
  have nullary: "q = that"
    if "n \<in> set (U16XY_nullary_mutators @ I4XY_nullary_mutators)" "n that g = (Inr q, g')"
  proof -
    from that(1) obtain C where "n = assign_xy C js_abs js_abs"
      by (auto simp add: U16XY_nullary_mutators_def I4XY_nullary_mutators_def fun_eq_iff
          U16XY_abs_def U16XY_absClamp_def I4XY_abs_def I4XY_absClamp_def)
    with that(2) show ?thesis using assign_xy_returns_this by metis
  qed
  have chain: "r1 = vec \<and> r2 = vec
          \<and> get_x vec h2 = js_add a c \<and> get_y vec h2 = js_add b d
          \<and> fst (construct_xy (cast K) (Nums (js_add a c) (js_add b d)) hf) = Inr (next_ref hf)
          \<and> get_x (next_ref hf) (snd (construct_xy (cast K) (Nums (js_add a c) (js_add b d)) hf))
              = get_x vec h2
          \<and> get_y (next_ref hf) (snd (construct_xy (cast K) (Nums (js_add a c) (js_add b d)) hf))
              = get_y vec h2"
    if s: "update_xy (cast K) (\<lambda>v w. w) vec (Nums a b) h0 = (Inr r1, h1)"
      and t: "update_xy (cast K) js_add r1 (Nums c d) h1 = (Inr r2, h2)"
    for K vec a b c d h0 h1 h2 hf and r1 r2 :: ref
  proof -
    from update_xy_success [OF s] obtain vx vy
      where sx: "cast K a = Inr vx" and sy: "cast K b = Inr vy"
        and h1: "h1 = put_y vec vy (put_x vec vx h0)" and r1: "r1 = vec"
      by auto
    from sx sy have v: "vx = a" "vy = b" by (simp_all add: cast_Inr_iff)
    have g1: "get_x vec h1 = a" "get_y vec h1 = b"
      unfolding h1 v by (simp_all add: get_x_def get_y_def put_x_def put_y_def)
    from update_xy_success [OF t] obtain wx wy
      where tx: "cast K (js_add a c) = Inr wx" and ty: "cast K (js_add b d) = Inr wy"
        and h2: "h2 = put_y vec wy (put_x vec wx h1)" and r2: "r2 = vec"
      unfolding r1 g1 by auto
    from tx ty have w: "wx = js_add a c" "wy = js_add b d"
      and sc: "is_scalar K (js_add a c)" "is_scalar K (js_add b d)"
      by (simp_all add: cast_Inr_iff)
    have g2: "get_x vec h2 = js_add a c" "get_y vec h2 = js_add b d"
      unfolding h2 w by (simp_all add: get_x_def get_y_def put_x_def put_y_def)
    have "construct_xy (cast K) (Nums (js_add a c) (js_add b d)) hf
              = (Inr (next_ref hf), alloc (js_add a c) (js_add b d) hf)"
      using construct_xy_scalars [of K "Nums (js_add a c) (js_add b d)" hf] sc by simp
    moreover have "get_x (next_ref hf) (alloc (js_add a c) (js_add b d) hf) = js_add a c"
      "get_y (next_ref hf) (alloc (js_add a c) (js_add b d) hf) = js_add b d"
      by (simp_all add: alloc_def get_x_def get_y_def)
    ultimately show ?thesis using r1 r2 g2 by simp
  qed
  have u16: "U16XY_set = update_xy (cast U16_kind) (\<lambda>v w. w)"
    "U16XY_add = update_xy (cast U16_kind) js_add"
    "U16XY_new = construct_xy (cast U16_kind)"
    by (intro ext, simp add: U16XY_set_def U16XY_add_def U16XY_new_def scalar_functions)+
  have i4: "I4XY_set = update_xy (cast I4_kind) (\<lambda>v w. w)"
    "I4XY_add = update_xy (cast I4_kind) js_add"
    "I4XY_new = construct_xy (cast I4_kind)"
    by (intro ext, simp add: I4XY_set_def I4XY_add_def I4XY_new_def scalar_functions)+
  have gets: "U16XY_get_x = get_x" "U16XY_get_y = get_y" "I4XY_get_x = get_x" "I4XY_get_y = get_y"
    by (intro ext, simp add: U16XY_get_x_def U16XY_get_y_def I4XY_get_x_def I4XY_get_y_def)+
  have cu: "U16XY_set vec (Nums a b) h0 = (Inr r1, h1) \<and> U16XY_add r1 (Nums c d) h1 = (Inr r2, h2)
        \<longrightarrow> r1 = vec \<and> r2 = vec
          \<and> U16XY_get_x vec h2 = js_add a c \<and> U16XY_get_y vec h2 = js_add b d
          \<and> fst (U16XY_new (Nums (js_add a c) (js_add b d)) hf) = Inr (next_ref hf)
          \<and> U16XY_get_x (next_ref hf) (snd (U16XY_new (Nums (js_add a c) (js_add b d)) hf))
              = U16XY_get_x vec h2
          \<and> U16XY_get_y (next_ref hf) (snd (U16XY_new (Nums (js_add a c) (js_add b d)) hf))
              = U16XY_get_y vec h2"
    unfolding u16 gets using chain by blast
  have ci: "I4XY_set ivec (Nums ja jb) i0 = (Inr s1, i1) \<and> I4XY_add s1 (Nums jc jd) i1 = (Inr s2, i2)
        \<longrightarrow> s1 = ivec \<and> s2 = ivec
          \<and> I4XY_get_x ivec i2 = js_add ja jc \<and> I4XY_get_y ivec i2 = js_add jb jd
          \<and> fst (I4XY_new (Nums (js_add ja jc) (js_add jb jd)) jf) = Inr (next_ref jf)
          \<and> I4XY_get_x (next_ref jf) (snd (I4XY_new (Nums (js_add ja jc) (js_add jb jd)) jf))
              = I4XY_get_x ivec i2
          \<and> I4XY_get_y (next_ref jf) (snd (I4XY_new (Nums (js_add ja jc) (js_add jb jd)) jf))
              = I4XY_get_y ivec i2"
    unfolding i4 gets using chain by blast
  from binary nullary cu ci show ?thesis by blast
qed

theorem C8_mutators_return_this_and_chain_witness:
  "U16XY_add \<in> set (U16XY_mutators @ I4XY_mutators)
   \<and> U16XY_abs \<in> set (U16XY_nullary_mutators @ I4XY_nullary_mutators)
   \<and> fst (U16XY_abs 0 (snd (U16XY_new (Nums (Fin 0) (Fin 0)) empty_heap))) = Inr 0
   \<and> U16XY_set 0 (Nums (Fin 3) (Fin 4)) (snd (U16XY_new (Nums (Fin 0) (Fin 0)) empty_heap))
       = (Inr 0, put_y 0 (Fin 4) (put_x 0 (Fin 3) (snd (U16XY_new (Nums (Fin 0) (Fin 0)) empty_heap))))
   \<and> U16XY_add 0 (Nums (Fin 1) (Fin 2))
        (put_y 0 (Fin 4) (put_x 0 (Fin 3) (snd (U16XY_new (Nums (Fin 0) (Fin 0)) empty_heap))))
       = (Inr 0, put_y 0 (Fin 6) (put_x 0 (Fin 4)
           (put_y 0 (Fin 4) (put_x 0 (Fin 3) (snd (U16XY_new (Nums (Fin 0) (Fin 0)) empty_heap))))))
   \<and> fst (U16XY_new (Nums (Fin 4) (Fin 6)) empty_heap) = Inr 0
   \<and> U16XY_get_x 0 (snd (U16XY_new (Nums (Fin 4) (Fin 6)) empty_heap)) = Fin 4
   \<and> U16XY_get_y 0 (snd (U16XY_new (Nums (Fin 4) (Fin 6)) empty_heap)) = Fin 6
   \<and> I4XY_set 0 (Nums (Fin (- 3)) (Fin 4)) (snd (I4XY_new (Nums (Fin 0) (Fin 0)) empty_heap))
       = (Inr 0, put_y 0 (Fin 4) (put_x 0 (Fin (- 3)) (snd (I4XY_new (Nums (Fin 0) (Fin 0)) empty_heap))))
   \<and> I4XY_add 0 (Nums (Fin 1) (Fin 2))
        (put_y 0 (Fin 4) (put_x 0 (Fin (- 3)) (snd (I4XY_new (Nums (Fin 0) (Fin 0)) empty_heap))))
       = (Inr 0, put_y 0 (Fin 6) (put_x 0 (Fin (- 2))
           (put_y 0 (Fin 4) (put_x 0 (Fin (- 3)) (snd (I4XY_new (Nums (Fin 0) (Fin 0)) empty_heap))))))
   \<and> fst (I4XY_new (Nums (Fin (- 2)) (Fin 6)) empty_heap) = Inr 0
   \<and> I4XY_get_x 0 (snd (I4XY_new (Nums (Fin (- 2)) (Fin 6)) empty_heap)) = Fin (- 2)
   \<and> I4XY_get_y 0 (snd (I4XY_new (Nums (Fin (- 2)) (Fin 6)) empty_heap)) = Fin 6"
proof -
  define hv where "hv = snd (U16XY_new (Nums (Fin 0) (Fin 0)) empty_heap)"
  define h1 where "h1 = put_y 0 (Fin 4) (put_x 0 (Fin 3) hv)"
  define h2 where "h2 = put_y 0 (Fin 6) (put_x 0 (Fin 4) h1)"
  define iv where "iv = snd (I4XY_new (Nums (Fin 0) (Fin 0)) empty_heap)"
  define i1 where "i1 = put_y 0 (Fin 4) (put_x 0 (Fin (- 3)) iv)"
  define i2 where "i2 = put_y 0 (Fin 6) (put_x 0 (Fin (- 2)) i1)"
  have mem: "U16XY_add \<in> set (U16XY_mutators @ I4XY_mutators)"
    by (simp add: U16XY_mutators_def)
  have nmem: "U16XY_abs \<in> set (U16XY_nullary_mutators @ I4XY_nullary_mutators)"
    by (simp add: U16XY_nullary_mutators_def)
  have n0: "next_ref empty_heap = 0" by (simp add: empty_heap_def)
  have g0: "get_x 0 hv = Fin 0" "get_y 0 hv = Fin 0"
    by (simp_all add: hv_def U16XY_new_def heap_eval scalar_eval)
  have g1: "get_x 0 h1 = Fin 3" "get_y 0 h1 = Fin 4"
    by (simp_all add: h1_def get_x_put_y get_x_put_x get_y_put_y)
  have g2: "get_x 0 h2 = Fin 4" "get_y 0 h2 = Fin 6"
    by (simp_all add: h2_def get_x_put_y get_x_put_x get_y_put_y)
  have j0: "get_x 0 iv = Fin 0" "get_y 0 iv = Fin 0"
    by (simp_all add: iv_def I4XY_new_def heap_eval scalar_eval)
  have j1: "get_x 0 i1 = Fin (- 3)" "get_y 0 i1 = Fin 4"
    by (simp_all add: i1_def get_x_put_y get_x_put_x get_y_put_y)
  have j2: "get_x 0 i2 = Fin (- 2)" "get_y 0 i2 = Fin 6"
    by (simp_all add: i2_def get_x_put_y get_x_put_x get_y_put_y)
  have cu: "U16 (Fin 0) = Inr (Fin 0)" "U16 (Fin 3) = Inr (Fin 3)" "U16 (Fin 4) = Inr (Fin 4)"
    "U16 (Fin 6) = Inr (Fin 6)"
    by (simp_all add: scalar_eval)
  have ci: "I4 (Fin (- 3)) = Inr (Fin (- 3))" "I4 (Fin 4) = Inr (Fin 4)"
    "I4 (Fin (- 2)) = Inr (Fin (- 2))" "I4 (Fin 6) = Inr (Fin 6)"
    by (simp_all add: scalar_eval)
  have ab: "U16XY_abs 0 hv = (Inr 0, put_y 0 (Fin 0) (put_x 0 (Fin 0) hv))"
    unfolding U16XY_abs_def by (rule assign_xy_success) (simp_all add: g0 cu)
  have s: "U16XY_set 0 (Nums (Fin 3) (Fin 4)) hv = (Inr 0, h1)"
    by (simp add: U16XY_set_def update_xy_cases cu h1_def)
  have a: "U16XY_add 0 (Nums (Fin 1) (Fin 2)) h1 = (Inr 0, h2)"
    by (simp add: U16XY_add_def update_xy_cases g1 cu h2_def)
  have si: "I4XY_set 0 (Nums (Fin (- 3)) (Fin 4)) iv = (Inr 0, i1)"
    by (simp add: I4XY_set_def update_xy_cases ci i1_def)
  have ai: "I4XY_add 0 (Nums (Fin 1) (Fin 2)) i1 = (Inr 0, i2)"
    by (simp add: I4XY_add_def update_xy_cases j1 ci i2_def)
  have sums: "js_add (Fin 3) (Fin 1) = Fin 4" "js_add (Fin 4) (Fin 2) = Fin 6"
    "js_add (Fin (- 3)) (Fin 1) = Fin (- 2)"
    by simp_all
  note t = C8_mutators_return_this_and_chain
    [where m = U16XY_add and this = 0 and args = "Nums (Fin 1) (Fin 2)" and h = h1 and r = 0
      and h' = h2 and n = U16XY_abs and that = 0 and g = hv and q = 0
      and g' = "put_y 0 (Fin 0) (put_x 0 (Fin 0) hv)"
      and vec = 0 and a = "Fin 3" and b = "Fin 4" and ?h0.0 = hv and ?r1.0 = 0 and ?h1.0 = h1
      and c = "Fin 1" and d = "Fin 2" and ?r2.0 = 0 and ?h2.0 = h2 and hf = empty_heap
      and ivec = 0 and ja = "Fin (- 3)" and jb = "Fin 4" and ?i0.0 = iv and ?s1.0 = 0
      and ?i1.0 = i1 and jc = "Fin 1" and jd = "Fin 2" and ?s2.0 = 0 and ?i2.0 = i2
      and jf = empty_heap, unfolded sums n0]
  from t s a have nu: "fst (U16XY_new (Nums (Fin 4) (Fin 6)) empty_heap) = Inr 0
     \<and> U16XY_get_x 0 (snd (U16XY_new (Nums (Fin 4) (Fin 6)) empty_heap)) = Fin 4
     \<and> U16XY_get_y 0 (snd (U16XY_new (Nums (Fin 4) (Fin 6)) empty_heap)) = Fin 6"
    by metis
  from t si ai have ni: "fst (I4XY_new (Nums (Fin (- 2)) (Fin 6)) empty_heap) = Inr 0
     \<and> I4XY_get_x 0 (snd (I4XY_new (Nums (Fin (- 2)) (Fin 6)) empty_heap)) = Fin (- 2)
     \<and> I4XY_get_y 0 (snd (I4XY_new (Nums (Fin (- 2)) (Fin 6)) empty_heap)) = Fin 6"
    by metis
  from ab have ab': "fst (U16XY_abs 0 hv) = Inr 0" by simp
  have ev: "U16XY_get_x 0 (snd (U16XY_new (Nums (Fin 4) (Fin 6)) empty_heap)) = Fin 4"
    "I4XY_get_y 0 (snd (I4XY_new (Nums (Fin (- 2)) (Fin 6)) empty_heap)) = Fin 6"
    by (simp_all add: U16XY_new_def I4XY_new_def U16XY_get_x_def I4XY_get_y_def
        heap_eval scalar_eval)
  from mem nmem ab' s a nu si ai ni ev show ?thesis
    unfolding hv_def h1_def h2_def iv_def i1_def i2_def by blast
qed

text \<open>
  Claim C9, as stated: assigning a raw number to \<open>v.x\<close> or \<open>v.y\<close> runs the Cast coercion
  before storing it, so the components are always valid. The setters store their
  argument as it is: after \<open>v.x = 70000\<close> on a U16XY the component \<open>x\<close> is 70000, which
  Cast rejects and which is no scalar value of the kind.
\<close>

theorem C9_setter_unchecked_counterexample:
  "fst (U16XY_new (Nums (Fin 1) (Fin 2)) empty_heap) = Inr 0
   \<and> U16XY_get_x 0 (U16XY_set_x 0 (Fin 70000) (snd (U16XY_new (Nums (Fin 1) (Fin 2)) empty_heap)))
       = Fin 70000
   \<and> U16 (Fin 70000) = Inl RangeViolation
   \<and> \<not> is_scalar U16_kind
        (U16XY_get_x 0 (U16XY_set_x 0 (Fin 70000) (snd (U16XY_new (Nums (Fin 1) (Fin 2)) empty_heap))))"
  by (simp add: U16XY_new_def U16XY_get_x_def U16XY_set_x_def heap_eval scalar_eval)

text \<open>
  Claim C9, amended. The \<open>x\<close> and \<open>y\<close> setters of U16XY and I4XY run no coercion: they
  store the assigned number as it is and leave the other component alone (the static
  parameter type \<open>U16\<close> or \<open>I4\<close> is the only guard). So the components are valid after
  the assignment exactly when the assigned number is a scalar value of the kind and the
  other component was valid.
\<close>

theorem C9_setters_store_unchanged:
  "U16XY_get_x this (U16XY_set_x this n h) = n
   \<and> U16XY_get_y this (U16XY_set_x this n h) = U16XY_get_y this h
   \<and> U16XY_get_y this (U16XY_set_y this n h) = n
   \<and> U16XY_get_x this (U16XY_set_y this n h) = U16XY_get_x this h
   \<and> I4XY_get_x this (I4XY_set_x this n h) = n
   \<and> I4XY_get_y this (I4XY_set_x this n h) = I4XY_get_y this h
   \<and> I4XY_get_y this (I4XY_set_y this n h) = n
   \<and> I4XY_get_x this (I4XY_set_y this n h) = I4XY_get_x this h
   \<and> ((is_scalar U16_kind (U16XY_get_x this (U16XY_set_x this n h))
        \<and> is_scalar U16_kind (U16XY_get_y this (U16XY_set_x this n h)))
       = (is_scalar U16_kind n \<and> is_scalar U16_kind (U16XY_get_y this h)))
   \<and> ((is_scalar U16_kind (U16XY_get_x this (U16XY_set_y this n h))
        \<and> is_scalar U16_kind (U16XY_get_y this (U16XY_set_y this n h)))
       = (is_scalar U16_kind (U16XY_get_x this h) \<and> is_scalar U16_kind n))
   \<and> ((is_scalar I4_kind (I4XY_get_x this (I4XY_set_x this n h))
        \<and> is_scalar I4_kind (I4XY_get_y this (I4XY_set_x this n h)))
       = (is_scalar I4_kind n \<and> is_scalar I4_kind (I4XY_get_y this h)))
   \<and> ((is_scalar I4_kind (I4XY_get_x this (I4XY_set_y this n h))
        \<and> is_scalar I4_kind (I4XY_get_y this (I4XY_set_y this n h)))
       = (is_scalar I4_kind (I4XY_get_x this h) \<and> is_scalar I4_kind n))"
  by (simp add: U16XY_get_x_def U16XY_get_y_def U16XY_set_x_def U16XY_set_y_def
      I4XY_get_x_def I4XY_get_y_def I4XY_set_x_def I4XY_set_y_def
      get_x_put_x get_y_put_x get_x_put_y get_y_put_y)

text \<open>
  Claim C10. For every integer \<open>color\<close>, \<open>colorIntToFloats color\<close> is the 4-tuple whose
  element \<open>i\<close> is \<open>((color >> (24 - 8 * i)) & 0xff) / 0xff\<close>; that element is the byte
  \<open>color div 2 ^ (24 - 8 * i) mod 256\<close> over 255, so each of the four channels lies within
  \<open>[0, 1]\<close>. In particular \<open>colorIntToFloats 0xffffffff = (1, 1, 1, 1)\<close> and
  \<open>colorIntToFloats 0 = (0, 0, 0, 0)\<close>.
\<close>

theorem C10_colorIntToFloats_channels:
  "colorIntToFloats color =
     (of_int (js_bitand (js_shr color (24 - 8 * 0)) 0xff) / 0xff,
      of_int (js_bitand (js_shr color (24 - 8 * 1)) 0xff) / 0xff,
      of_int (js_bitand (js_shr color (24 - 8 * 2)) 0xff) / 0xff,
      of_int (js_bitand (js_shr color (24 - 8 * 3)) 0xff) / 0xff)
   \<and> colorIntToFloats color =
     (of_int (color div 2 ^ 24 mod 256) / 255,
      of_int (color div 2 ^ 16 mod 256) / 255,
      of_int (color div 2 ^ 8 mod 256) / 255,
      of_int (color div 2 ^ 0 mod 256) / 255)
   \<and> (case colorIntToFloats color of
        (r, g, b, a) \<Rightarrow>
          0 \<le> r \<and> r \<le> 1 \<and> 0 \<le> g \<and> g \<le> 1 \<and> 0 \<le> b \<and> b \<le> 1 \<and> 0 \<le> a \<and> a \<le> 1)
   \<and> colorIntToFloats 0xffffffff = (1, 1, 1, 1)
   \<and> colorIntToFloats 0 = (0, 0, 0, 0)"
proof -
  have shifts: "colorIntToFloats color =
     (of_int (js_bitand (js_shr color (24 - 8 * 0)) 0xff) / 0xff,
      of_int (js_bitand (js_shr color (24 - 8 * 1)) 0xff) / 0xff,
      of_int (js_bitand (js_shr color (24 - 8 * 2)) 0xff) / 0xff,
      of_int (js_bitand (js_shr color (24 - 8 * 3)) 0xff) / 0xff)"
    by (simp add: colorIntToFloats_def)
  have bytes: "colorIntToFloats c =
     (of_int (c div 2 ^ 24 mod 256) / 255,
      of_int (c div 2 ^ 16 mod 256) / 255,
      of_int (c div 2 ^ 8 mod 256) / 255,
      of_int (c div 2 ^ 0 mod 256) / 255)" for c
    unfolding colorIntToFloats_def
    by (simp only: channel_byte [of 24 c] channel_byte [of 16 c]
        channel_byte [of 8 c] channel_byte [of 0 c])
  have range: "case colorIntToFloats color of
        (r, g, b, a) \<Rightarrow>
          0 \<le> r \<and> r \<le> 1 \<and> 0 \<le> g \<and> g \<le> 1 \<and> 0 \<le> b \<and> b \<le> 1 \<and> 0 \<le> a \<and> a \<le> 1"
    unfolding bytes [of color] prod.case
    using channel_range [of "color div 2 ^ 24"] channel_range [of "color div 2 ^ 16"]
      channel_range [of "color div 2 ^ 8"] channel_range [of "color div 2 ^ 0"]
    by blast
  have white: "colorIntToFloats 0xffffffff = (1, 1, 1, 1)"
    unfolding bytes [of "0xffffffff"] by simp
  have black: "colorIntToFloats 0 = (0, 0, 0, 0)"
    unfolding bytes [of 0] by simp
  from shifts bytes [of color] range white black show ?thesis by blast
qed

end
